theory Spec2Isabelle
  imports Main "HOL-Library.Word"
begin

section \<open>The simulator bindings: data model\<close>

text \<open>
  The development embeds \<^verbatim>\<open>src/simulator/simulator_bindings.cpp\<close>. The Thrift-generated
  types (\<^verbatim>\<open>gen-cpp/scene_types.h\<close>, \<^verbatim>\<open>gen-cpp/task_types.h\<close>) and the engine
  (\<^verbatim>\<open>mergeUserInputIntoScene\<close>, \<^verbatim>\<open>simulateTask\<close>, \<^verbatim>\<open>render\<close>, \<^verbatim>\<open>renderTo\<close>,
  \<^verbatim>\<open>featurizeScene\<close>, \<^verbatim>\<open>deserialize\<close>'s Thrift reader) are not part of the sources: the
  types are records with the fields the bindings use, the engine functions are the fields
  of a record that the functions calling them take as their first argument.

  Floats are only copied by the bindings, never computed with, so their type is a
  parameter \<open>'f\<close>. The fields of a body other than its shape type are a parameter \<open>'g\<close>.
\<close>

type_synonym int32_t = "32 word"
type_synonym uint8_t = "8 word"

text \<open>
  What stops a call. \<open>RuntimeError\<close> is the \<^verbatim>\<open>std::runtime_error\<close> thrown by
  \<^verbatim>\<open>buildUserInputObject\<close>, \<open>DecodeError\<close> an exception of the Thrift reader, \<open>BadAlloc\<close>
  the failure of \<^verbatim>\<open>new[]\<close> with a negative length. The other two are where C++ gives the
  program no defined result, which the model makes a result instead of hiding it:
  \<open>OutOfRange\<close> is an access outside a vector or an allocated buffer (undefined behaviour),
  \<open>IntRange\<close> a value for an \<^verbatim>\<open>int\<close> outside \<open>[INT_MIN, INT_MAX]\<close> (signed overflow is
  undefined behaviour, a \<^verbatim>\<open>size_t\<close> that does not fit is implementation-defined).
\<close>

datatype error =
    RuntimeError string
  | DecodeError
  | BadAlloc
  | OutOfRange
  | IntRange

definition INT_MAX :: int where
  "INT_MAX = 2147483647"

definition INT_MIN :: int where
  "INT_MIN = - 2147483648"

definition to_int :: "int \<Rightarrow> error + int" where
  "to_int v = (if INT_MIN \<le> v \<and> v \<le> INT_MAX then Inr v else Inl IntRange)"

text \<open>\<^verbatim>\<open>v[k]\<close> on a \<^verbatim>\<open>std::vector\<close>: no bounds check in C++, so a read past the end is
  undefined behaviour.\<close>

definition vec_at :: "'a list \<Rightarrow> nat \<Rightarrow> error + 'a" where
  "vec_at v k = (if k < length v then Inr (v ! k) else Inl OutOfRange)"

text \<open>Modelled from the spec: the enumeration \<^verbatim>\<open>scene::ShapeType\<close> is declared in
  \<^verbatim>\<open>gen-cpp/scene_types.h\<close>. \<open>UNDEFINED\<close> marks an inactive slot; the other enumerators
  are kept by their number.\<close>

datatype ShapeType = UNDEFINED | Shape nat

text \<open>Modelled from the spec: the enumeration \<^verbatim>\<open>scene::UserInputStatus\<close>. The bindings
  name \<open>NO_OCCLUSIONS\<close> and \<open>HAD_OCCLUSIONS\<close>; \<open>STATUS_UNSET\<close> is the value of the field in
  a default-constructed scene.\<close>

datatype UserInputStatus = STATUS_UNSET | NO_OCCLUSIONS | HAD_OCCLUSIONS

record 'g Body =
  shapeType :: ShapeType
  geometry :: 'g

record 'g Scene =
  width :: int32_t
  height :: int32_t
  bodies :: "'g Body list"
  user_input_bodies :: "'g Body list"
  user_input_status :: UserInputStatus

record 'g Task =
  task_scene :: "'g Scene"

record 'g TaskSimulation =
  isSolution :: bool
  sceneList :: "'g Scene list"

record Image =
  image_values :: "int list"

datatype 'f Vector = Vector (vector_x: 'f) (vector_y: 'f)

record 'f AbsoluteConvexPolygon =
  vertices :: "'f Vector list"

record 'f CircleWithPosition =
  position :: "'f Vector"
  radius :: 'f

record 'f UserInput =
  flattened_point_list :: "int32_t list"
  polygons :: "'f AbsoluteConvexPolygon list"
  balls :: "'f CircleWithPosition list"

text \<open>A \<^verbatim>\<open>py::array_t\<close>: its shape and its elements by index. \<open>unchecked_at a [i, j]\<close>
  is \<^verbatim>\<open>a.unchecked<2>()(i, j)\<close>.\<close>

record 'a array_t =
  shape :: "nat list"
  unchecked_at :: "nat list \<Rightarrow> 'a"

definition ndim :: "'a array_t \<Rightarrow> nat" where
  "ndim a = length (shape a)"

text \<open>Modelled from the spec: \<^verbatim>\<open>getVector\<close> (declared in a header that is not among the
  sources) builds the vector with the given coordinates.\<close>

definition getVector :: "'f \<Rightarrow> 'f \<Rightarrow> 'f Vector" where
  "getVector a b = Vector a b"

section \<open>buildUserInputObject\<close>

text \<open>The loop over the rows of \<open>points\<close>; \<open>i\<close> is a \<^verbatim>\<open>size_t\<close>.\<close>

function points_loop :: "int32_t array_t \<Rightarrow> nat \<Rightarrow> int32_t list \<Rightarrow> int32_t list" where
  "points_loop points i acc =
     (if i < shape points ! 0
      then points_loop points (Suc i)
             (acc @ [unchecked_at points [i, 0], unchecked_at points [i, 1]])
      else acc)"
  by pat_completeness auto
termination
  by (relation "measure (\<lambda>(points, i, acc). shape points ! 0 - i)") auto

declare points_loop.simps [simp del]

text \<open>The inner loop \<^verbatim>\<open>for (int j = 0; j < 4; j += 2)\<close> of the polygon loop.\<close>

function vertices_loop :: "'f list \<Rightarrow> nat \<Rightarrow> nat \<Rightarrow> 'f Vector list \<Rightarrow> error + 'f Vector list" where
  "vertices_loop v i j acc =
     (if j < 4
      then (case vec_at v (i + j) of
              Inl e \<Rightarrow> Inl e
            | Inr a \<Rightarrow>
                (case vec_at v (i + j + 1) of
                   Inl e \<Rightarrow> Inl e
                 | Inr b \<Rightarrow> vertices_loop v i (j + 2) (acc @ [getVector a b])))
      else Inr acc)"
  by pat_completeness auto
termination
  by (relation "measure (\<lambda>(v, i, j, acc). 4 - j)") auto

declare vertices_loop.simps [simp del]

text \<open>The loop \<^verbatim>\<open>for (int i = 0; i < v.size(); i += 8)\<close>. The counter is an \<^verbatim>\<open>int\<close> that
  never goes negative; \<^verbatim>\<open>i += 8\<close> past \<open>INT_MAX\<close> is signed overflow.\<close>

function polygons_loop ::
  "'f list \<Rightarrow> nat \<Rightarrow> 'f AbsoluteConvexPolygon list \<Rightarrow> error + 'f AbsoluteConvexPolygon list" where
  "polygons_loop v i acc =
     (if i < length v
      then (case vertices_loop v i 0 [] of
              Inl e \<Rightarrow> Inl e
            | Inr vs \<Rightarrow>
                (if int i + 8 \<le> INT_MAX
                 then polygons_loop v (i + 8) (acc @ [\<lparr>vertices = vs\<rparr>])
                 else Inl IntRange))
      else Inr acc)"
  by pat_completeness auto
termination
  by (relation "measure (\<lambda>(v, i, acc). length v - i)") auto

declare polygons_loop.simps [simp del]

text \<open>\<^verbatim>\<open>i++\<close> on an \<^verbatim>\<open>int\<close>.\<close>

definition post_inc :: "nat \<Rightarrow> error + nat" where
  "post_inc i = (if int i + 1 \<le> INT_MAX then Inr (i + 1) else Inl IntRange)"

text \<open>One pass of the body of the circle loop: three reads \<^verbatim>\<open>v[i++]\<close>. It returns the
  circle and the counter after the three increments.\<close>

definition read_circle :: "'f list \<Rightarrow> nat \<Rightarrow> error + ('f CircleWithPosition \<times> nat)" where
  "read_circle v i =
     (case vec_at v i of Inl e \<Rightarrow> Inl e | Inr cx \<Rightarrow>
      case post_inc i of Inl e \<Rightarrow> Inl e | Inr i1 \<Rightarrow>
      case vec_at v i1 of Inl e \<Rightarrow> Inl e | Inr cy \<Rightarrow>
      case post_inc i1 of Inl e \<Rightarrow> Inl e | Inr i2 \<Rightarrow>
      case vec_at v i2 of Inl e \<Rightarrow> Inl e | Inr r \<Rightarrow>
      case post_inc i2 of Inl e \<Rightarrow> Inl e | Inr i3 \<Rightarrow>
      Inr (\<lparr>position = Vector cx cy, radius = r\<rparr>, i3))"

function balls_loop ::
  "'f list \<Rightarrow> nat \<Rightarrow> 'f CircleWithPosition list \<Rightarrow> error + 'f CircleWithPosition list" where
  "balls_loop v i acc =
     (if i < length v
      then (case read_circle v i of
              Inl e \<Rightarrow> Inl e
            | Inr (circle, i') \<Rightarrow> balls_loop v i' (acc @ [circle]))
      else Inr acc)"
  by pat_completeness auto
termination
  by (relation "measure (\<lambda>(v, i, acc). length v - i)")
     (auto simp: read_circle_def post_inc_def split: sum.splits if_splits)

declare balls_loop.simps [simp del]

definition buildUserInputObject ::
  "int32_t array_t \<Rightarrow> 'f list \<Rightarrow> 'f list \<Rightarrow> error + 'f UserInput" where
  "buildUserInputObject points rectangulars_vertices_flatten balls_flatten =
     (if ndim points \<noteq> 2 then Inl (RuntimeError ''Number of dimensions must be two'')
      else if shape points ! 1 \<noteq> 2
      then Inl (RuntimeError ''Second dimension must have size 2 (x, y)'')
      else
        (let pts = points_loop points 0 []
         in case polygons_loop rectangulars_vertices_flatten 0 [] of
              Inl e \<Rightarrow> Inl e
            | Inr polys \<Rightarrow>
                (case balls_loop balls_flatten 0 [] of
                   Inl e \<Rightarrow> Inl e
                 | Inr circles \<Rightarrow>
                     Inr \<lparr>flattened_point_list = pts, polygons = polys, balls = circles\<rparr>)))"

section \<open>The engine\<close>

text \<open>The functions of the engine that the bindings call, and the constant
  \<^verbatim>\<open>kObjectFeatureSize\<close> (an \<^verbatim>\<open>int\<close>), all declared in headers that are not among the
  sources. \<open>deserialize\<close> is \<^verbatim>\<open>deserialize<Task>\<close>: the Thrift reader may throw.
  \<open>mergeUserInputIntoScene\<close> returns the flag \<open>good\<close> and fills the vector it is given, here
  the second component of its result; its arguments keep the order of the call. \<open>renderTo\<close>
  and \<open>featurizeScene\<close> write through the pointer they are given: the model takes the
  values they write, in order.\<close>

record ('g, 'f) engine =
  deserialize :: "uint8_t list \<Rightarrow> error + 'g Task"
  mergeUserInputIntoScene ::
    "'f UserInput \<Rightarrow> 'g Body list \<Rightarrow> bool \<Rightarrow> bool \<Rightarrow> int32_t \<Rightarrow> int32_t \<Rightarrow> bool \<times> 'g Body list"
  simulateTask :: "'g Task \<Rightarrow> int \<Rightarrow> int \<Rightarrow> 'g TaskSimulation"
  render :: "'g Scene \<Rightarrow> Image"
  renderTo :: "'g Scene \<Rightarrow> uint8_t list"
  featurizeScene :: "'g Scene \<Rightarrow> 'f list"
  kObjectFeatureSize :: int

section \<open>Merging the user input, counting objects\<close>

definition addUserInputToScene ::
  "('g, 'f) engine \<Rightarrow> 'f UserInput \<Rightarrow> bool \<Rightarrow> bool \<Rightarrow> 'g Scene \<Rightarrow> 'g Scene" where
  "addUserInputToScene eng user_input keep_space_around_bodies allow_occlusions scene =
     (let (good, new_bodies) =
            mergeUserInputIntoScene eng user_input (bodies scene) keep_space_around_bodies
              allow_occlusions (height scene) (width scene)
      in scene\<lparr>user_input_status := (if good then NO_OCCLUSIONS else HAD_OCCLUSIONS),
               user_input_bodies := new_bodies\<rparr>)"

text \<open>The loop of \<^verbatim>\<open>getNumObjectsInScene\<close>; \<open>numObjects\<close> is an \<^verbatim>\<open>int\<close>.\<close>

fun count_loop :: "'g Body list \<Rightarrow> int \<Rightarrow> error + int" where
  "count_loop [] numObjects = Inr numObjects"
| "count_loop (body # rest) numObjects =
     (if shapeType body \<noteq> UNDEFINED
      then (case to_int (numObjects + 1) of
              Inl e \<Rightarrow> Inl e
            | Inr n \<Rightarrow> count_loop rest n)
      else count_loop rest numObjects)"

definition getNumObjectsInScene :: "'g Scene \<Rightarrow> error + int" where
  "getNumObjectsInScene scene =
     (let all_bodies = bodies scene @ user_input_bodies scene
      in count_loop all_bodies 0)"

definition getNumObjects :: "'g TaskSimulation \<Rightarrow> error + int" where
  "getNumObjects simulation =
     (let scenes = sceneList simulation
      in if scenes = [] then Inr 0 else getNumObjectsInScene (sceneList simulation ! 0))"

definition hadSimulationOcclusions :: "'g TaskSimulation \<Rightarrow> bool" where
  "hadSimulationOcclusions simulation =
     (let scenes = sceneList simulation
      in if scenes = [] then False else user_input_status (scenes ! 0) = HAD_OCCLUSIONS)"

section \<open>Calls into the engine, buffers\<close>

text \<open>What a call does besides returning: the calls into the engine, in order, and the
  warning written to \<^verbatim>\<open>stderr\<close> (with the expected and the actual size).\<close>

datatype 'g event =
    CallDeserialize
  | CallMergeUserInputIntoScene
  | CallSimulateTask
  | CallRenderTo "'g Scene"
  | CallRender "'g Scene"
  | CallFeaturizeScene "'g Scene"
  | StderrWarning int nat

text \<open>A computation gives the events it caused and either what stopped it or its result.
  \<open>bind_io\<close> runs the second computation after the first one returned.\<close>

type_synonym ('g, 'a) io = "'g event list \<times> (error + 'a)"

definition bind_io :: "('g, 'a) io \<Rightarrow> ('a \<Rightarrow> ('g, 'b) io) \<Rightarrow> ('g, 'b) io" where
  "bind_io m f =
     (case m of
        (ev, Inl e) \<Rightarrow> (ev, Inl e)
      | (ev, Inr a) \<Rightarrow> (case f a of (ev', r) \<Rightarrow> (ev @ ev', r)))"

definition pure_io :: "error + 'a \<Rightarrow> ('g, 'a) io" where
  "pure_io r = ([], r)"

definition emit :: "'g event \<Rightarrow> ('g, unit) io" where
  "emit e = ([e], Inr ())"

text \<open>A buffer from \<^verbatim>\<open>new T[n]\<close>: \<open>n\<close> cells with no value yet. The length is an \<^verbatim>\<open>int\<close>
  converted to \<^verbatim>\<open>size_t\<close>, so a negative one makes \<^verbatim>\<open>new\<close> throw.\<close>

type_synonym 'a buffer = "'a option list"

definition new_array :: "int \<Rightarrow> error + 'a buffer" where
  "new_array n = (if n < 0 then Inl BadAlloc else Inr (replicate (nat n) None))"

text \<open>Writing \<open>data\<close> through the pointer \<open>buf + p\<close>. A write that leaves the allocated
  cells is undefined behaviour.\<close>

definition write_at :: "'a buffer \<Rightarrow> int \<Rightarrow> 'a list \<Rightarrow> error + 'a buffer" where
  "write_at buf p data =
     (if 0 \<le> p \<and> nat p + length data \<le> length buf
      then Inr (take (nat p) buf @ map Some data @ drop (nat p + length data) buf)
      else Inl OutOfRange)"

text \<open>\<^verbatim>\<open>std::fill(buf + p, buf + p + n, 0)\<close>; with \<open>n < 0\<close> the range is not valid.\<close>

definition fill_at :: "uint8_t buffer \<Rightarrow> int \<Rightarrow> int \<Rightarrow> error + uint8_t buffer" where
  "fill_at buf p n =
     (if n < 0 then Inl OutOfRange else write_at buf p (replicate (nat n) 0))"

section \<open>renderAllObjectMasksTo\<close>

text \<open>The lambda \<^verbatim>\<open>renderSingleBody\<close>. It captures \<open>scene\<close>, \<open>imageSize\<close>, \<open>bufferStart\<close>
  (the pointer \<open>buf + bufferStart\<close>) and, by reference, \<open>currentObjectIndex\<close>, which is
  passed in and returned with the buffer. \<^verbatim>\<open>std::copy\<close> converts each value of the image
  to \<^verbatim>\<open>uint8_t\<close>. The size of the image is compared with \<open>imageSize\<close> converted to
  \<^verbatim>\<open>size_t\<close>, which no size equals when \<open>imageSize\<close> is negative.\<close>

definition singleObjectScene :: "'g Scene \<Rightarrow> 'g Body \<Rightarrow> 'g Scene" where
  "singleObjectScene scene body =
     \<lparr>width = width scene, height = height scene, bodies = [body],
      user_input_bodies = [], user_input_status = STATUS_UNSET\<rparr>"

definition renderSingleBody ::
  "('g, 'f) engine \<Rightarrow> 'g Scene \<Rightarrow> int \<Rightarrow> int \<Rightarrow> 'g Body \<Rightarrow> uint8_t buffer \<times> int
     \<Rightarrow> ('g, uint8_t buffer \<times> int) io" where
  "renderSingleBody eng scene imageSize bufferStart body st =
     (let (buf, currentObjectIndex) = st;
          singleObjectImage = render eng (singleObjectScene scene body)
      in bind_io (emit (CallRender (singleObjectScene scene body))) (\<lambda>_.
         bind_io (pure_io (to_int (currentObjectIndex * imageSize))) (\<lambda>off.
         let currentMaskBuffer = bufferStart + off
         in bind_io
              (if int (length (image_values singleObjectImage)) = imageSize
               then pure_io (write_at buf currentMaskBuffer
                               (map word_of_int (image_values singleObjectImage)))
               else bind_io
                      (emit (StderrWarning imageSize
                               (length (image_values singleObjectImage)))) (\<lambda>_.
                    pure_io (fill_at buf currentMaskBuffer imageSize)))
              (\<lambda>buf'.
         bind_io (pure_io (to_int (currentObjectIndex + 1))) (\<lambda>next_index.
         pure_io (Inr (buf', next_index)))))))"

text \<open>One of the two loops over a list of bodies.\<close>

fun render_bodies ::
  "('g, 'f) engine \<Rightarrow> 'g Scene \<Rightarrow> int \<Rightarrow> int \<Rightarrow> 'g Body list \<Rightarrow> uint8_t buffer \<times> int
     \<Rightarrow> ('g, uint8_t buffer \<times> int) io" where
  "render_bodies eng scene imageSize bufferStart [] st = pure_io (Inr st)"
| "render_bodies eng scene imageSize bufferStart (body # rest) st =
     (if shapeType body \<noteq> UNDEFINED
      then bind_io (renderSingleBody eng scene imageSize bufferStart body st)
             (render_bodies eng scene imageSize bufferStart rest)
      else render_bodies eng scene imageSize bufferStart rest st)"

definition renderAllObjectMasksTo ::
  "('g, 'f) engine \<Rightarrow> 'g Scene \<Rightarrow> uint8_t buffer \<Rightarrow> int \<Rightarrow> ('g, uint8_t buffer) io" where
  "renderAllObjectMasksTo eng scene buf bufferStart =
     bind_io (pure_io (to_int (sint (width scene) * sint (height scene)))) (\<lambda>imageSize.
     bind_io (render_bodies eng scene imageSize bufferStart (bodies scene) (buf, 0)) (\<lambda>st.
     bind_io (render_bodies eng scene imageSize bufferStart (user_input_bodies scene) st)
       (\<lambda>(buf', currentObjectIndex). pure_io (Inr buf'))))"

section \<open>magic_ponies\<close>

text \<open>A \<^verbatim>\<open>py::array_t\<close> of one dimension over a buffer: the size it is given and the
  buffer it points to. A negative size is refused.\<close>

record 'a packed_array =
  array_size :: int
  array_data :: "'a buffer"

definition make_array :: "int \<Rightarrow> 'a buffer \<Rightarrow> error + 'a packed_array" where
  "make_array n buf =
     (if n < 0 then Inl (RuntimeError ''negative dimensions are not allowed'')
      else Inr \<lparr>array_size = n, array_data = buf\<rparr>)"

text \<open>The tuple that \<^verbatim>\<open>magic_ponies\<close> returns, without the two timings (and with
  \<open>numSceneObjects\<close>, which the tuple holds twice, once), together with the block
  \<open>packedObjectMasks\<close> as allocated and written, which the capsule
  \<^verbatim>\<open>freeObjectMasksWhenDone\<close> owns whether or not an array is built over it.\<close>

record 'f magic_ponies_result =
  isSolved :: bool
  hadOcclusions :: bool
  packedImagesArray :: "uint8_t packed_array"
  packedObjectMasksArray :: "uint8_t packed_array"
  numSceneObjects :: int
  packedObjectsArray :: "'f packed_array"
  packedObjectMasks :: "uint8_t buffer"

text \<open>The loop over the frames that fills \<open>packedImages\<close> and \<open>packedObjectMasks\<close>
  (lines 219 to 230). The state is the two buffers, \<open>imageWriteIndex\<close> and \<open>sceneIndex\<close>.\<close>

fun images_loop ::
  "('g, 'f) engine \<Rightarrow> bool \<Rightarrow> int \<Rightarrow> int \<Rightarrow> 'g Scene list
     \<Rightarrow> uint8_t buffer \<times> uint8_t buffer \<times> int \<times> int
     \<Rightarrow> ('g, uint8_t buffer \<times> uint8_t buffer \<times> int \<times> int) io" where
  "images_loop eng need_object_masks imageSize nObjects [] st = pure_io (Inr st)"
| "images_loop eng need_object_masks imageSize nObjects (scene # rest) st =
     (case st of (images, masks, imageWriteIndex, sceneIndex) \<Rightarrow>
        bind_io (emit (CallRenderTo scene)) (\<lambda>_.
        bind_io (pure_io (write_at images imageWriteIndex (renderTo eng scene))) (\<lambda>images'.
        bind_io (pure_io (to_int (imageWriteIndex + imageSize))) (\<lambda>imageWriteIndex'.
        bind_io
          (if need_object_masks
           then bind_io (pure_io (to_int (sceneIndex * nObjects))) (\<lambda>k.
                bind_io (pure_io (to_int (k * imageSize))) (\<lambda>currentSceneMasksBuffer.
                renderAllObjectMasksTo eng scene masks currentSceneMasksBuffer))
           else pure_io (Inr masks))
          (\<lambda>masks'.
        bind_io (pure_io (to_int (sceneIndex + 1))) (\<lambda>sceneIndex'.
        images_loop eng need_object_masks imageSize nObjects rest
          (images', masks', imageWriteIndex', sceneIndex')))))))"

text \<open>The loop over the frames that fills \<open>packedVectorizedBodies\<close> (lines 238 to 241).\<close>

fun features_loop ::
  "('g, 'f) engine \<Rightarrow> int \<Rightarrow> 'g Scene list \<Rightarrow> 'f buffer \<times> int \<Rightarrow> ('g, 'f buffer \<times> int) io" where
  "features_loop eng nObjects [] st = pure_io (Inr st)"
| "features_loop eng nObjects (scene # rest) st =
     (case st of (features, writeIndex) \<Rightarrow>
        bind_io (emit (CallFeaturizeScene scene)) (\<lambda>_.
        bind_io (pure_io (write_at features writeIndex (featurizeScene eng scene))) (\<lambda>features'.
        bind_io (pure_io (to_int (kObjectFeatureSize eng * nObjects))) (\<lambda>step.
        bind_io (pure_io (to_int (writeIndex + step))) (\<lambda>writeIndex'.
        features_loop eng nObjects rest (features', writeIndex'))))))"

text \<open>Lines 201 to 276 of \<^verbatim>\<open>magic_ponies\<close>: from the simulation to the returned tuple.
  \<^verbatim>\<open>sceneList.size()\<close> is a \<^verbatim>\<open>size_t\<close> stored in an \<^verbatim>\<open>int\<close>; every product is an \<^verbatim>\<open>int\<close>
  product, taken in the order of the source.\<close>

definition pack_results ::
  "('g, 'f) engine \<Rightarrow> 'g Task \<Rightarrow> 'g TaskSimulation \<Rightarrow> bool \<Rightarrow> bool \<Rightarrow> bool
     \<Rightarrow> ('g, 'f magic_ponies_result) io" where
  "pack_results eng task simulation need_images need_featurized_objects need_object_masks =
     bind_io (pure_io (to_int (if need_images then int (length (sceneList simulation)) else 0)))
       (\<lambda>numImagesTotal.
     bind_io (pure_io (to_int (if need_featurized_objects
                               then int (length (sceneList simulation)) else 0)))
       (\<lambda>numScenesTotal.
     bind_io (pure_io (to_int (sint (width (task_scene task)) * sint (height (task_scene task)))))
       (\<lambda>imageSize.
     bind_io (pure_io (to_int (imageSize * numImagesTotal))) (\<lambda>imagesLength.
     bind_io (pure_io (new_array imagesLength)) (\<lambda>packedImages0.
     bind_io (pure_io (getNumObjects simulation)) (\<lambda>nObjects.
     bind_io (pure_io (to_int (imagesLength * nObjects))) (\<lambda>masksLength.
     bind_io (pure_io (new_array masksLength)) (\<lambda>packedObjectMasks0.
     bind_io
       (if numImagesTotal > 0
        then images_loop eng need_object_masks imageSize nObjects (sceneList simulation)
               (packedImages0, packedObjectMasks0, 0, 0)
        else pure_io (Inr (packedImages0, packedObjectMasks0, 0, 0)))
       (\<lambda>(packedImages1, packedObjectMasks1, imageWriteIndex, sceneIndex).
     bind_io (pure_io (to_int (nObjects * kObjectFeatureSize eng))) (\<lambda>k.
     bind_io (pure_io (to_int (k * numScenesTotal))) (\<lambda>featuresLength.
     bind_io (pure_io (new_array featuresLength)) (\<lambda>packedVectorizedBodies0.
     bind_io
       (if numScenesTotal > 0
        then features_loop eng nObjects (sceneList simulation) (packedVectorizedBodies0, 0)
        else pure_io (Inr (packedVectorizedBodies0, 0)))
       (\<lambda>(packedVectorizedBodies1, writeIndex).
     bind_io (pure_io (to_int (numImagesTotal * imageSize))) (\<lambda>imagesShape.
     bind_io (pure_io (make_array imagesShape packedImages1)) (\<lambda>imagesArray.
     bind_io (pure_io (to_int (numScenesTotal * nObjects))) (\<lambda>k'.
     bind_io (pure_io (to_int (k' * kObjectFeatureSize eng))) (\<lambda>objectsShape.
     bind_io (pure_io (make_array objectsShape packedVectorizedBodies1)) (\<lambda>objectsArray.
     bind_io
       (if need_object_masks
        then bind_io (pure_io (to_int (numImagesTotal * nObjects))) (\<lambda>k''.
             bind_io (pure_io (to_int (k'' * imageSize))) (\<lambda>masksShape.
             pure_io (make_array masksShape packedObjectMasks1)))
        else pure_io (Inr \<lparr>array_size = 0, array_data = []\<rparr>))
       (\<lambda>masksArray.
     pure_io (Inr \<lparr>isSolved = isSolution simulation,
                    hadOcclusions = hadSimulationOcclusions simulation,
                    packedImagesArray = imagesArray,
                    packedObjectMasksArray = masksArray,
                    numSceneObjects = nObjects,
                    packedObjectsArray = objectsArray,
                    packedObjectMasks = packedObjectMasks1\<rparr>))))))))))))))))))))"

definition magic_ponies ::
  "('g, 'f) engine \<Rightarrow> uint8_t list \<Rightarrow> 'f UserInput \<Rightarrow> bool \<Rightarrow> int \<Rightarrow> int \<Rightarrow> bool \<Rightarrow> bool \<Rightarrow> bool
     \<Rightarrow> ('g, 'f magic_ponies_result) io" where
  "magic_ponies eng serialized_task user_input keep_space_around_bodies steps stride
       need_images need_featurized_objects need_object_masks =
     bind_io (emit CallDeserialize) (\<lambda>_.
     bind_io (pure_io (deserialize eng serialized_task)) (\<lambda>task0.
     bind_io (emit CallMergeUserInputIntoScene) (\<lambda>_.
     let task = task0\<lparr>task_scene :=
                  addUserInputToScene eng user_input keep_space_around_bodies False
                    (task_scene task0)\<rparr>
     in bind_io (emit CallSimulateTask) (\<lambda>_.
        pack_results eng task (simulateTask eng task steps stride)
          need_images need_featurized_objects need_object_masks))))"

section \<open>The entry points that build the user input\<close>

definition check_for_occlusions ::
  "('g, 'f) engine \<Rightarrow> uint8_t list \<Rightarrow> int32_t array_t \<Rightarrow> 'f list \<Rightarrow> 'f list \<Rightarrow> bool
     \<Rightarrow> ('g, bool) io" where
  "check_for_occlusions eng serialized_task points rectangulars_vertices_flatten
       balls_flatten keep_space_around_bodies =
     bind_io (pure_io (buildUserInputObject points rectangulars_vertices_flatten balls_flatten))
       (\<lambda>user_input.
     bind_io (emit CallDeserialize) (\<lambda>_.
     bind_io (pure_io (deserialize eng serialized_task)) (\<lambda>task.
     bind_io (emit CallMergeUserInputIntoScene) (\<lambda>_.
     pure_io (Inr (user_input_status
                     (addUserInputToScene eng user_input keep_space_around_bodies False
                        (task_scene task)) = HAD_OCCLUSIONS))))))"

definition magic_ponies_binding ::
  "('g, 'f) engine \<Rightarrow> uint8_t list \<Rightarrow> int32_t array_t \<Rightarrow> 'f list \<Rightarrow> 'f list \<Rightarrow> bool \<Rightarrow> int \<Rightarrow> int
     \<Rightarrow> bool \<Rightarrow> bool \<Rightarrow> bool \<Rightarrow> ('g, 'f magic_ponies_result) io" where
  "magic_ponies_binding eng serialized_task points rectangulars_vertices_flatten
       balls_flatten keep_space_around_bodies steps stride need_images
       need_featurized_objects need_object_masks =
     bind_io (pure_io (buildUserInputObject points rectangulars_vertices_flatten balls_flatten))
       (\<lambda>user_input.
     magic_ponies eng serialized_task user_input keep_space_around_bodies steps stride
       need_images need_featurized_objects need_object_masks)"

section \<open>Vocabulary for the properties\<close>

text \<open>\<open>overwrite buf p xs\<close> is \<open>buf\<close> with the cells from \<open>p\<close> on replaced by \<open>xs\<close>. \<open>mask_of\<close>
  is what \<^verbatim>\<open>renderSingleBody\<close> stores for a body (the image converted to bytes, or zeros
  when its size is not \<open>imageSize\<close>) and \<open>mask_events\<close> what it causes. \<open>rendered_scenes\<close>
  and \<open>warnings\<close> read the calls of \<^verbatim>\<open>render\<close> and the warnings off a list of events.\<close>

definition overwrite :: "'a list \<Rightarrow> nat \<Rightarrow> 'a list \<Rightarrow> 'a list" where
  "overwrite buf p xs = take p buf @ xs @ drop (p + length xs) buf"

definition mask_of :: "('g, 'f) engine \<Rightarrow> 'g Scene \<Rightarrow> int \<Rightarrow> 'g Body \<Rightarrow> uint8_t option list" where
  "mask_of eng scene imageSize body =
     (let img = image_values (render eng (singleObjectScene scene body))
      in if int (length img) = imageSize then map (\<lambda>v. Some (word_of_int v)) img
         else replicate (nat imageSize) (Some 0))"

definition mask_events :: "('g, 'f) engine \<Rightarrow> 'g Scene \<Rightarrow> int \<Rightarrow> 'g Body \<Rightarrow> 'g event list" where
  "mask_events eng scene imageSize body =
     (let img = image_values (render eng (singleObjectScene scene body))
      in CallRender (singleObjectScene scene body) #
         (if int (length img) = imageSize then [] else [StderrWarning imageSize (length img)]))"

fun rendered_scenes :: "'g event list \<Rightarrow> 'g Scene list" where
  "rendered_scenes [] = []"
| "rendered_scenes (CallRender s # es) = s # rendered_scenes es"
| "rendered_scenes (e # es) = rendered_scenes es"

fun warnings :: "'g event list \<Rightarrow> (int \<times> nat) list" where
  "warnings [] = []"
| "warnings (StderrWarning expected got # es) = (expected, got) # warnings es"
| "warnings (e # es) = warnings es"

abbreviation valid :: "'g Body list \<Rightarrow> 'g Body list" where
  "valid bs \<equiv> filter (\<lambda>b. shapeType b \<noteq> UNDEFINED) bs"

text \<open>\<open>frame_like eng S n scene\<close>: the frame has image size \<open>S\<close> and \<open>n\<close> valid bodies, and
  \<^verbatim>\<open>renderTo\<close> writes \<open>S\<close> bytes for it.\<close>

definition frame_like :: "('g, 'f) engine \<Rightarrow> int \<Rightarrow> int \<Rightarrow> 'g Scene \<Rightarrow> bool" where
  "frame_like eng S n scene \<longleftrightarrow>
     sint (width scene) * sint (height scene) = S \<and>
     int (length (valid (bodies scene @ user_input_bodies scene))) = n \<and>
     int (length (renderTo eng scene)) = S"

section \<open>Example inputs\<close>

text \<open>A matrix of two points, \<open>(0, 1)\<close> and \<open>(10, 11)\<close>, and an array of rank one.\<close>

definition example_points :: "int32_t array_t" where
  "example_points =
     \<lparr>shape = [2, 2], unchecked_at = (\<lambda>ix. word_of_nat (10 * (ix ! 0) + ix ! 1))\<rparr>"

definition example_rank1 :: "int32_t array_t" where
  "example_rank1 = \<lparr>shape = [4], unchecked_at = (\<lambda>ix. 0)\<rparr>"

text \<open>A scene of two pixels with two valid bodies and an inactive slot, and an engine:
  its \<^verbatim>\<open>render\<close> gives an image of the wrong size for the body \<open>9\<close> and of the right size,
  with a value that does not fit a byte, for the others; its merge makes one body per
  circle of the user input; its simulation repeats the scene of the task \<open>steps\<close> times.\<close>

definition example_scene :: "nat Scene" where
  "example_scene =
     \<lparr>width = 2, height = 1,
      bodies = [\<lparr>shapeType = Shape 1, geometry = 7\<rparr>, \<lparr>shapeType = UNDEFINED, geometry = 8\<rparr>],
      user_input_bodies = [\<lparr>shapeType = Shape 2, geometry = 9\<rparr>],
      user_input_status = NO_OCCLUSIONS\<rparr>"

definition example_engine :: "(nat, int) engine" where
  "example_engine =
     \<lparr>deserialize =
        (\<lambda>bytes. if bytes = [] then Inl DecodeError
                  else Inr \<lparr>task_scene = example_scene\<lparr>user_input_bodies := [],
                                            user_input_status := STATUS_UNSET\<rparr>\<rparr>),
      mergeUserInputIntoScene =
        (\<lambda>user_input bs keep allow h w.
           (polygons user_input = [],
            map (\<lambda>c. \<lparr>shapeType = Shape 2, geometry = 9\<rparr>) (balls user_input))),
      simulateTask =
        (\<lambda>task steps stride.
           \<lparr>isSolution = True, sceneList = replicate (nat steps) (task_scene task)\<rparr>),
      render =
        (\<lambda>s. \<lparr>image_values = (if map geometry (bodies s) = [9] then [5] else [1, 257])\<rparr>),
      renderTo = (\<lambda>s. [3, 4]),
      featurizeScene = (\<lambda>s. [70, 90]),
      kObjectFeatureSize = 1\<rparr>"

definition example_input :: "int UserInput" where
  "example_input =
     \<lparr>flattened_point_list = [], polygons = [],
      balls = [\<lparr>position = Vector 1 2, radius = 3\<rparr>]\<rparr>"

definition example_mask_events :: "nat event list" where
  "example_mask_events =
     [CallRender \<lparr>width = 2, height = 1, bodies = [\<lparr>shapeType = Shape 1, geometry = 7\<rparr>],
                  user_input_bodies = [], user_input_status = STATUS_UNSET\<rparr>,
      CallRender \<lparr>width = 2, height = 1, bodies = [\<lparr>shapeType = Shape 2, geometry = 9\<rparr>],
                  user_input_bodies = [], user_input_status = STATUS_UNSET\<rparr>,
      StderrWarning 2 1]"

text \<open>The task that the example engine decodes, and what \<open>magic_ponies\<close> returns for it on two
  frames, with images and masks and with features only.\<close>

definition example_task :: "nat Task" where
  "example_task =
     \<lparr>task_scene = example_scene\<lparr>user_input_bodies := [], user_input_status := STATUS_UNSET\<rparr>\<rparr>"

definition example_result :: "int magic_ponies_result" where
  "example_result =
     \<lparr>isSolved = True, hadOcclusions = False,
      packedImagesArray = \<lparr>array_size = 4, array_data = [Some 3, Some 4, Some 3, Some 4]\<rparr>,
      packedObjectMasksArray =
        \<lparr>array_size = 8,
         array_data = [Some 1, Some 1, Some 0, Some 0, Some 1, Some 1, Some 0, Some 0]\<rparr>,
      numSceneObjects = 2,
      packedObjectsArray = \<lparr>array_size = 0, array_data = []\<rparr>,
      packedObjectMasks = [Some 1, Some 1, Some 0, Some 0, Some 1, Some 1, Some 0, Some 0]\<rparr>"

definition example_result_no_images :: "int magic_ponies_result" where
  "example_result_no_images =
     \<lparr>isSolved = True, hadOcclusions = False,
      packedImagesArray = \<lparr>array_size = 0, array_data = []\<rparr>,
      packedObjectMasksArray = \<lparr>array_size = 0, array_data = []\<rparr>,
      numSceneObjects = 2,
      packedObjectsArray = \<lparr>array_size = 4, array_data = [Some 70, Some 90, Some 70, Some 90]\<rparr>,
      packedObjectMasks = []\<rparr>"

section \<open>Properties of buildUserInputObject\<close>

lemma points_loop_eq:
  "points_loop p i acc =
     acc @ concat (map (\<lambda>k. [unchecked_at p [k, 0], unchecked_at p [k, 1]]) [i..<shape p ! 0])"
proof (induction p i acc rule: points_loop.induct)
  case (1 p i acc)
  show ?case
  proof (cases "i < shape p ! 0")
    case True
    with 1 show ?thesis
      by (subst points_loop.simps) (simp add: upt_conv_Cons)
  next
    case False
    then show ?thesis
      by (subst points_loop.simps) simp
  qed
qed

lemma rows_length:
  "length (concat (map (\<lambda>k. [f k, g k]) [0..<n])) = 2 * n"
  by (induction n) simp_all

lemma rows_nth:
  "i < n \<Longrightarrow>
     concat (map (\<lambda>k. [f k, g k]) [0..<n]) ! (2 * i) = f i \<and>
     concat (map (\<lambda>k. [f k, g k]) [0..<n]) ! (2 * i + 1) = g i"
proof (induction n)
  case 0
  then show ?case by simp
next
  case (Suc n)
  show ?case
  proof (cases "i < n")
    case True
    with Suc.IH show ?thesis
      by (simp add: nth_append rows_length)
  next
    case False
    with Suc.prems have "i = n" by simp
    then show ?thesis
      by (simp add: nth_append rows_length)
  qed
qed

lemma build_Inr_points:
  "buildUserInputObject points r b = Inr ui \<Longrightarrow>
     flattened_point_list ui = points_loop points 0 []"
  by (auto simp: buildUserInputObject_def Let_def split: if_splits sum.splits)

lemma vertices_loop_eq:
  "vertices_loop v i 0 [] =
     (if i + 3 < length v
      then Inr [Vector (v ! i) (v ! (i + 1)), Vector (v ! (i + 2)) (v ! (i + 3))]
      else Inl OutOfRange)"
  by (simp add: vertices_loop.simps vec_at_def getVector_def numeral_3_eq_3)

text \<open>On full strides every polygon has the two vertices made of the first four floats of its
  stride. In general the number of polygons is \<open>len / 8\<close> rounded up, and the circle loop
  always reads past the end when the length is not a multiple of 3.\<close>

lemma polygons_loop_full_strides:
  "i + 8 * k = length v \<Longrightarrow> int (length v) \<le> INT_MAX \<Longrightarrow>
     polygons_loop v i acc =
       Inr (acc @ map (\<lambda>m. \<lparr>vertices = [Vector (v ! (i + 8 * m)) (v ! (i + 8 * m + 1)),
                                          Vector (v ! (i + 8 * m + 2)) (v ! (i + 8 * m + 3))]\<rparr>)
                    [0..<k])"
proof (induction k arbitrary: i acc)
  case 0
  then show ?case
    by (subst polygons_loop.simps) simp
next
  case (Suc k)
  from Suc.prems have lt: "i < length v" "i + 3 < length v" "int i + 8 \<le> INT_MAX"
    by simp_all
  let ?f = "\<lambda>j m. \<lparr>vertices = [Vector (v ! (j + 8 * m)) (v ! (j + 8 * m + 1)),
                                  Vector (v ! (j + 8 * m + 2)) (v ! (j + 8 * m + 3))]\<rparr>"
  from Suc.prems have "i + 8 + 8 * k = length v"
    by simp
  from Suc.IH [OF this Suc.prems(2)] have
    rest: "polygons_loop v (i + 8) (acc @ [?f i 0]) = Inr ((acc @ [?f i 0]) @ map (?f (i + 8)) [0..<k])"
    by simp
  have "[0..<Suc k] = 0 # map Suc [0..<k]"
    by (simp add: upt_conv_Cons map_Suc_upt del: upt_Suc)
  then have "map (?f i) [0..<Suc k] = ?f i 0 # map (\<lambda>m. ?f i (Suc m)) [0..<k]"
    by (simp add: comp_def del: upt_Suc)
  also have "(\<lambda>m. ?f i (Suc m)) = ?f (i + 8)"
    by (rule ext) (simp add: ac_simps)
  finally have m: "map (?f i) [0..<Suc k] = ?f i 0 # map (?f (i + 8)) [0..<k]" .
  have v: "vertices_loop v i 0 [] = Inr [Vector (v ! i) (v ! (i + 1)), Vector (v ! (i + 2)) (v ! (i + 3))]"
    using lt by (simp add: vertices_loop_eq)
  show ?case
    unfolding m
    by (subst polygons_loop.simps) (use lt v rest in simp)
qed

lemma ceil8_step:
  fixes n i :: nat
  assumes "i < n"
  shows "(n - (i + 8) + 7) div 8 + 1 = (n - i + 7) div 8"
proof (cases "i + 8 \<le> n")
  case True
  then obtain x where x: "n = i + 8 + x"
    using le_Suc_ex by blast
  show ?thesis
    unfolding x by simp
next
  case False
  with assms obtain d where d: "n = i + d" "0 < d" "d < 8"
    by (metis less_imp_add_positive nat_add_left_cancel_less not_le)
  have "(d + 7) div 8 = 1"
    using d by (intro div_nat_eqI) simp_all
  with d show ?thesis
    by simp
qed

lemma polygons_loop_count:
  "polygons_loop v i acc = Inr ps \<Longrightarrow> length ps = length acc + (length v - i + 7) div 8"
proof (induction v i acc rule: polygons_loop.induct)
  case (1 v i acc)
  show ?case
  proof (cases "i < length v")
    case False
    with "1.prems" show ?thesis
      by (simp add: polygons_loop.simps [of v i acc])
  next
    case True
    from "1.prems" True have
      "(case vertices_loop v i 0 [] of
          Inl e \<Rightarrow> Inl e
        | Inr vs \<Rightarrow>
            (if int i + 8 \<le> INT_MAX
             then polygons_loop v (i + 8) (acc @ [\<lparr>vertices = vs\<rparr>])
             else Inl IntRange)) = Inr ps"
      by (simp add: polygons_loop.simps [of v i acc])
    then obtain vs where
      vs: "vertices_loop v i 0 [] = Inr vs" and ok: "int i + 8 \<le> INT_MAX" and
      r: "polygons_loop v (i + 8) (acc @ [\<lparr>vertices = vs\<rparr>]) = Inr ps"
      by (cases "vertices_loop v i 0 []") (simp_all split: if_splits)
    from "1.IH" [OF True vs ok r] have
      "length ps = length acc + ((length v - (i + 8) + 7) div 8 + 1)"
      by simp
    with ceil8_step [OF True] show ?thesis
      by simp
  qed
qed

lemma read_circle_Inr_iff:
  "int (length v) \<le> INT_MAX \<Longrightarrow>
     read_circle v i = (if i + 2 < length v
       then Inr (\<lparr>position = Vector (v ! i) (v ! (i + 1)), radius = v ! (i + 2)\<rparr>, i + 3)
       else Inl OutOfRange)"
  by (auto simp: read_circle_def vec_at_def post_inc_def numeral_3_eq_3 numeral_2_eq_2)

lemma balls_loop_partial_stride:
  "int (length v) \<le> INT_MAX \<Longrightarrow> i \<le> length v \<Longrightarrow> (length v - i) mod 3 \<noteq> 0 \<Longrightarrow>
     balls_loop v i acc = Inl OutOfRange"
proof (induction v i acc rule: balls_loop.induct)
  case (1 v i acc)
  from "1.prems" have lt: "i < length v"
    by (cases "i = length v") simp_all
  show ?case
  proof (cases "i + 2 < length v")
    case False
    with lt "1.prems" show ?thesis
      by (subst balls_loop.simps) (simp add: read_circle_Inr_iff)
  next
    case True
    let ?c = "\<lparr>position = Vector (v ! i) (v ! (i + 1)), radius = v ! (i + 2)\<rparr>"
    have rc: "read_circle v i = Inr (?c, i + 3)"
      using True "1.prems" by (simp add: read_circle_Inr_iff)
    have "(length v - (i + 3)) mod 3 \<noteq> 0"
      using True "1.prems"(3) by presburger
    with "1.IH" [OF lt rc refl "1.prems"(1)] True have
      "balls_loop v (i + 3) (acc @ [?c]) = Inl OutOfRange"
      by simp
    with lt rc show ?thesis
      by (subst balls_loop.simps) simp
  qed
qed

lemma build_Inr_polygons:
  "buildUserInputObject points r b = Inr ui \<Longrightarrow>
     polygons_loop r 0 [] = Inr (polygons ui) \<and> balls_loop b 0 [] = Inr (balls ui)"
  by (auto simp: buildUserInputObject_def Let_def split: if_splits sum.splits)

lemma build_full_strides_two_vertices:
  assumes "length r = 8 * k" "int (length r) \<le> INT_MAX"
    and "buildUserInputObject points r b = Inr ui"
  shows "length (polygons ui) = k \<and> (\<forall>p\<in>set (polygons ui). length (vertices p) = 2)"
proof -
  from assms(1) have "0 + 8 * k = length r"
    by simp
  from polygons_loop_full_strides [OF this assms(2), of "[]"] build_Inr_polygons [OF assms(3)]
  show ?thesis
    by auto
qed

lemma build_partial_stride_of_circles:
  assumes "length b mod 3 \<noteq> 0" "int (length b) \<le> INT_MAX"
  shows "\<forall>ui. buildUserInputObject points r b \<noteq> Inr ui"
proof -
  have "balls_loop b 0 [] = Inl OutOfRange"
    using assms by (intro balls_loop_partial_stride) simp_all
  then show ?thesis
    by (auto dest: build_Inr_polygons)
qed

text \<open>
  Claim C1 says that every stride of 8 floats gives a polygon of 4 vertices made of the 8
  floats. The inner loop runs \<open>j = 0, 2\<close> only (\<^verbatim>\<open>j < 4; j += 2\<close>): on the single stride
  \<open>0, \<dots>, 7\<close> the code builds one polygon of two vertices, \<open>(0, 1)\<close> and \<open>(2, 3)\<close>, and the
  floats \<open>4, \<dots>, 7\<close> are never read.
\<close>

theorem C1_one_stride_gives_two_vertices:
  "buildUserInputObject example_points [0, 1, 2, 3, 4, 5, 6, 7 :: int] [] =
     Inr \<lparr>flattened_point_list = [0, 1, 10, 11],
          polygons = [\<lparr>vertices = [Vector 0 1, Vector 2 3]\<rparr>],
          balls = []\<rparr>"
  by code_simp

text \<open>
  Claim C2 says that a trailing partial stride is dropped and never read: \<open>floor (len / 8)\<close>
  polygons, \<open>floor (len / 3)\<close> circles. The loops test \<^verbatim>\<open>i < size\<close> only. Twelve floats give
  two polygons, the second from the partial stride; nine floats make the second pass read
  index 9 of a vector of 9; four floats make the second pass of the circle loop read index 4
  of a vector of 4.
\<close>

theorem C2_partial_stride_is_read:
  "buildUserInputObject example_points [0, 1, 2, 3, 4, 5, 6, 7, 8, 9, 10, 11 :: int] [] =
     Inr \<lparr>flattened_point_list = [0, 1, 10, 11],
          polygons = [\<lparr>vertices = [Vector 0 1, Vector 2 3]\<rparr>,
                      \<lparr>vertices = [Vector 8 9, Vector 10 11]\<rparr>],
          balls = []\<rparr> \<and>
   buildUserInputObject example_points [0, 1, 2, 3, 4, 5, 6, 7, 8 :: int] [] = Inl OutOfRange \<and>
   buildUserInputObject example_points [] [1, 2, 3, 4 :: int] = Inl OutOfRange"
  by code_simp

text \<open>
  Claim C9: for a matrix of shape \<open>N \<times> 2\<close>, whenever \<open>buildUserInputObject\<close> returns a user
  input, its flattened point list has length \<open>2 N\<close> and holds, for each row \<open>i\<close> in order,
  the element \<open>(i, 0)\<close> at position \<open>2 i\<close> and the element \<open>(i, 1)\<close> at position \<open>2 i + 1\<close>.
\<close>

theorem C9_flattened_points:
  assumes "shape points = [N, 2]"
      and "buildUserInputObject points r b = Inr ui"
  shows "length (flattened_point_list ui) = 2 * N \<and>
         (\<forall>i<N. flattened_point_list ui ! (2 * i) = unchecked_at points [i, 0] \<and>
                 flattened_point_list ui ! (2 * i + 1) = unchecked_at points [i, 1])"
proof -
  let ?f = "\<lambda>k. unchecked_at points [k, 0]" and ?g = "\<lambda>k. unchecked_at points [k, 1]"
  have eq: "flattened_point_list ui = concat (map (\<lambda>k. [?f k, ?g k]) [0..<N])"
    using assms by (simp add: build_Inr_points points_loop_eq)
  show ?thesis
    unfolding eq
  proof (intro conjI allI impI)
    show "length (concat (map (\<lambda>k. [?f k, ?g k]) [0..<N])) = 2 * N"
      by (rule rows_length)
  next
    fix i assume "i < N"
    then show "concat (map (\<lambda>k. [?f k, ?g k]) [0..<N]) ! (2 * i) = ?f i"
      by (rule rows_nth [THEN conjunct1])
  next
    fix i assume "i < N"
    then show "concat (map (\<lambda>k. [?f k, ?g k]) [0..<N]) ! (2 * i + 1) = ?g i"
      by (rule rows_nth [THEN conjunct2])
  qed
qed

theorem C9_witness:
  "shape example_points = [2, 2] \<and>
   buildUserInputObject example_points ([] :: int list) [] =
     Inr \<lparr>flattened_point_list = [0, 1, 10, 11], polygons = [], balls = []\<rparr> \<and>
   length [0, 1, 10, 11 :: int32_t] = 2 * 2 \<and>
   [0, 1, 10, 11 :: int32_t] ! (2 * 1) = unchecked_at example_points [1, 0] \<and>
   [0, 1, 10, 11 :: int32_t] ! (2 * 1 + 1) = unchecked_at example_points [1, 1]"
proof -
  have sh: "shape example_points = [2, 2]"
    by (simp add: example_points_def)
  have run: "buildUserInputObject example_points ([] :: int list) [] =
               Inr \<lparr>flattened_point_list = [0, 1, 10, 11], polygons = [], balls = []\<rparr>"
    by code_simp
  have "(1::nat) < 2"
    by simp
  with C9_flattened_points [OF sh run] have
    "length (flattened_point_list
        \<lparr>flattened_point_list = [0, 1, 10, 11], polygons = [], balls = ([] :: int CircleWithPosition list)\<rparr>) = 2 * 2 \<and>
     flattened_point_list
        \<lparr>flattened_point_list = [0, 1, 10, 11], polygons = [], balls = ([] :: int CircleWithPosition list)\<rparr> ! (2 * 1) =
       unchecked_at example_points [1, 0] \<and>
     flattened_point_list
        \<lparr>flattened_point_list = [0, 1, 10, 11], polygons = [], balls = ([] :: int CircleWithPosition list)\<rparr> ! (2 * 1 + 1) =
       unchecked_at example_points [1, 1]"
    by blast
  then show ?thesis
    using sh run by simp
qed

text \<open>
  Claim C8: when \<open>points\<close> is not of rank 2 with a second dimension of 2,
  \<open>buildUserInputObject\<close> stops with a \<^verbatim>\<open>std::runtime_error\<close> whatever the two float
  vectors are (also vectors that the later loops would read out of range), and so do
  \<open>check_for_occlusions\<close> and the binding of \<open>magic_ponies\<close>, with no event: the task has not
  been decoded, nothing merged, nothing simulated.
\<close>

theorem C8_shape_checked_first:
  assumes "\<not> (ndim points = 2 \<and> shape points ! 1 = 2)"
  shows "\<exists>msg. buildUserInputObject points r b = Inl (RuntimeError msg) \<and>
           check_for_occlusions eng serialized_task points r b keep = ([], Inl (RuntimeError msg)) \<and>
           magic_ponies_binding eng serialized_task points r b keep steps stride
               need_images need_featurized_objects need_object_masks =
             ([], Inl (RuntimeError msg))"
  using assms
  by (auto simp: buildUserInputObject_def check_for_occlusions_def magic_ponies_binding_def
        bind_io_def pure_io_def)

theorem C8_witness:
  "\<not> (ndim example_rank1 = 2 \<and> shape example_rank1 ! 1 = 2) \<and>
   buildUserInputObject example_rank1 [1, 2 :: int] [3] =
     Inl (RuntimeError ''Number of dimensions must be two'') \<and>
   check_for_occlusions example_engine [] example_rank1 [1, 2] [3] True =
     ([], Inl (RuntimeError ''Number of dimensions must be two'')) \<and>
   magic_ponies_binding example_engine [] example_rank1 [1, 2] [3] True 2 1 True True True =
     ([], Inl (RuntimeError ''Number of dimensions must be two''))"
proof -
  have h: "\<not> (ndim example_rank1 = 2 \<and> shape example_rank1 ! 1 = 2)"
    by (simp add: ndim_def example_rank1_def)
  have b: "buildUserInputObject example_rank1 [1, 2 :: int] [3] =
             Inl (RuntimeError ''Number of dimensions must be two'')"
    by (simp add: buildUserInputObject_def ndim_def example_rank1_def)
  from C8_shape_checked_first [OF h, of "[1, 2 :: int]" "[3]" example_engine "[]" True 2 1 True True True]
  show ?thesis
    using h b by auto
qed

section \<open>Properties of the merge and of the object count\<close>

lemma count_loop_eq:
  "INT_MIN \<le> n \<Longrightarrow> n \<le> INT_MAX \<Longrightarrow>
     count_loop bs n = to_int (n + int (length (filter (\<lambda>b. shapeType b \<noteq> UNDEFINED) bs)))"
proof (induction bs arbitrary: n)
  case Nil
  then show ?case by (simp add: to_int_def)
next
  case (Cons b bs)
  show ?case
  proof (cases "shapeType b \<noteq> UNDEFINED")
    case False
    with Cons show ?thesis by simp
  next
    case True
    show ?thesis
    proof (cases "n + 1 \<le> INT_MAX")
      case le: True
      with Cons.prems have "INT_MIN \<le> n + 1" by simp
      from Cons.IH [OF this le] True le Cons.prems show ?thesis
        by (simp add: to_int_def add.assoc)
    next
      case False
      with True Cons.prems show ?thesis
        by (simp add: to_int_def)
    qed
  qed
qed

text \<open>
  Claim C4: \<open>getNumObjectsInScene\<close> returns the number of bodies whose shape type is not
  \<open>UNDEFINED\<close>, those of \<open>bodies\<close> plus those of \<open>user_input_bodies\<close>, as an \<^verbatim>\<open>int\<close> (\<open>to_int\<close>:
  the counter is an \<^verbatim>\<open>int\<close>, so the number is returned whenever an \<^verbatim>\<open>int\<close> can hold it);
  \<open>getNumObjects\<close> returns 0 for an empty frame list and the count of frame 0 otherwise.
\<close>

theorem C4_object_count:
  "getNumObjectsInScene scene =
     to_int (int (length (filter (\<lambda>b. shapeType b \<noteq> UNDEFINED) (bodies scene))) +
             int (length (filter (\<lambda>b. shapeType b \<noteq> UNDEFINED) (user_input_bodies scene)))) \<and>
   getNumObjects simulation =
     (if sceneList simulation = [] then Inr 0
      else getNumObjectsInScene (sceneList simulation ! 0))"
  by (simp add: getNumObjectsInScene_def getNumObjects_def count_loop_eq INT_MIN_def INT_MAX_def)

text \<open>
  Claim C6: after \<open>addUserInputToScene\<close> the status of the scene is \<open>NO_OCCLUSIONS\<close> exactly
  when the merge returned \<open>good\<close> and \<open>HAD_OCCLUSIONS\<close> exactly when it did not, and the
  user input bodies of the scene are the bodies the merge produced, whatever they were
  before. The other fields are unchanged.
\<close>

theorem C6_status_and_bodies_from_merge:
  "(user_input_status (addUserInputToScene eng ui keep allow scene) = NO_OCCLUSIONS) =
     fst (mergeUserInputIntoScene eng ui (bodies scene) keep allow (height scene) (width scene)) \<and>
   (user_input_status (addUserInputToScene eng ui keep allow scene) = HAD_OCCLUSIONS) =
     (\<not> fst (mergeUserInputIntoScene eng ui (bodies scene) keep allow (height scene) (width scene))) \<and>
   user_input_bodies (addUserInputToScene eng ui keep allow scene) =
     snd (mergeUserInputIntoScene eng ui (bodies scene) keep allow (height scene) (width scene)) \<and>
   bodies (addUserInputToScene eng ui keep allow scene) = bodies scene \<and>
   width (addUserInputToScene eng ui keep allow scene) = width scene \<and>
   height (addUserInputToScene eng ui keep allow scene) = height scene"
  by (simp add: addUserInputToScene_def split: prod.splits)

section \<open>Computations with events, buffers\<close>

lemma bind_io_Inl: "bind_io (ev, Inl e) f = (ev, Inl e)"
  by (simp add: bind_io_def)

lemma bind_io_Inr: "bind_io (ev, Inr a) f = (ev @ fst (f a), snd (f a))"
  by (simp add: bind_io_def split: prod.splits)

lemma bind_io_Inr_iff:
  "bind_io m f = (ev, Inr b) \<longleftrightarrow>
     (\<exists>ev1 a ev2. m = (ev1, Inr a) \<and> f a = (ev2, Inr b) \<and> ev = ev1 @ ev2)"
  by (cases m; cases "snd m") (auto simp: bind_io_def split: prod.splits)

lemma bind_pure_Inr_iff:
  "bind_io (pure_io r) f = (ev, Inr b) \<longleftrightarrow> (\<exists>a. r = Inr a \<and> f a = (ev, Inr b))"
  by (cases r) (auto simp: pure_io_def bind_io_def split: prod.splits)

lemma bind_emit_Inr_iff:
  "bind_io (emit e) f = (ev, Inr b) \<longleftrightarrow> (\<exists>ev2. f () = (ev2, Inr b) \<and> ev = e # ev2)"
  by (auto simp: emit_def bind_io_def split: prod.splits)

lemma emit_eq_iff: "emit e = (ev, x) \<longleftrightarrow> ev = [e] \<and> x = Inr ()"
  by (auto simp: emit_def)

lemma pure_io_eq_iff: "pure_io r = (ev, x) \<longleftrightarrow> ev = [] \<and> r = x"
  by (auto simp: pure_io_def)

lemma to_int_Inr_iff: "to_int v = Inr a \<longleftrightarrow> a = v \<and> INT_MIN \<le> v \<and> v \<le> INT_MAX"
  by (auto simp: to_int_def)

lemma write_at_Inr_iff:
  "write_at buf p xs = Inr buf' \<longleftrightarrow>
     0 \<le> p \<and> nat p + length xs \<le> length buf \<and> buf' = overwrite buf (nat p) (map Some xs)"
  by (auto simp: write_at_def overwrite_def)

lemma fill_at_Inr_iff:
  "fill_at buf p n = Inr buf' \<longleftrightarrow>
     0 \<le> n \<and> 0 \<le> p \<and> nat p + nat n \<le> length buf \<and>
     buf' = overwrite buf (nat p) (replicate (nat n) (Some 0))"
  by (auto simp: fill_at_def write_at_Inr_iff)

lemma length_overwrite: "p + length xs \<le> length buf \<Longrightarrow> length (overwrite buf p xs) = length buf"
  by (simp add: overwrite_def)

lemma overwrite_Nil [simp]: "overwrite buf p [] = buf"
  by (simp add: overwrite_def)

lemma overwrite_overwrite:
  assumes "p + length xs + length ys \<le> length buf"
  shows "overwrite (overwrite buf p xs) (p + length xs) ys = overwrite buf p (xs @ ys)"
proof -
  have p: "p \<le> length buf"
    using assms by simp
  then have len: "length (take p buf) = p"
    by simp
  have t: "take (p + length xs) (take p buf @ xs @ drop (p + length xs) buf) = take p buf @ xs"
    using len by simp
  have d: "drop (p + length xs + length ys) (take p buf @ xs @ drop (p + length xs) buf) =
             drop (p + length xs + length ys) buf"
    using len by (simp add: ac_simps)
  show ?thesis
    unfolding overwrite_def t d by (simp add: ac_simps)
qed

lemma length_mask_of: "length (mask_of eng scene S body) = nat S"
  by (auto simp: mask_of_def Let_def)

lemma renderSingleBody_Inr:
  assumes "renderSingleBody eng scene S start body (buf, idx) = (ev, Inr (buf', idx'))"
  shows "idx' = idx + 1 \<and> ev = mask_events eng scene S body \<and> 0 \<le> S \<and>
         0 \<le> start + idx * S \<and> nat (start + idx * S) + nat S \<le> length buf \<and>
         buf' = overwrite buf (nat (start + idx * S)) (mask_of eng scene S body)"
  using assms
  by (auto simp: renderSingleBody_def Let_def bind_pure_Inr_iff bind_emit_Inr_iff bind_io_Inr_iff
        pure_io_eq_iff emit_eq_iff to_int_Inr_iff write_at_Inr_iff fill_at_Inr_iff mask_of_def
        mask_events_def comp_def
      split: if_splits)

lemma renderSingleBody_total:
  assumes "0 \<le> S" "INT_MIN \<le> idx * S" "idx * S \<le> INT_MAX" "INT_MIN \<le> idx + 1" "idx + 1 \<le> INT_MAX"
    "0 \<le> start + idx * S" "nat (start + idx * S) + nat S \<le> length buf"
  shows "renderSingleBody eng scene S start body (buf, idx) =
           (mask_events eng scene S body,
            Inr (overwrite buf (nat (start + idx * S)) (mask_of eng scene S body), idx + 1))"
  using assms
  by (auto simp: renderSingleBody_def Let_def pure_io_def emit_def to_int_def write_at_def fill_at_def
        mask_of_def mask_events_def overwrite_def bind_io_Inr bind_io_Inl comp_def)


lemma length_concat_masks:
  "length (concat (map (mask_of eng scene S) xs)) = length xs * nat S"
  by (induction xs) (simp_all add: length_mask_of)

lemma render_bodies_Inr:
  assumes "render_bodies eng scene S start bs (buf, idx) = (ev, Inr (buf', idx'))"
  shows "idx' = idx + int (length (valid bs)) \<and>
         ev = concat (map (mask_events eng scene S) (valid bs)) \<and>
         (valid bs \<noteq> [] \<longrightarrow>
            0 \<le> S \<and> 0 \<le> start + idx * S \<and>
            nat (start + idx * S) + length (valid bs) * nat S \<le> length buf) \<and>
         buf' = overwrite buf (nat (start + idx * S)) (concat (map (mask_of eng scene S) (valid bs))) \<and>
         length buf' = length buf"
  using assms
proof (induction bs arbitrary: buf idx ev)
  case Nil
  then show ?case by (simp add: pure_io_eq_iff)
next
  case (Cons b bs)
  show ?case
  proof (cases "shapeType b \<noteq> UNDEFINED")
    case False
    then have v: "valid (b # bs) = valid bs"
      by simp
    from False Cons.prems have "render_bodies eng scene S start bs (buf, idx) = (ev, Inr (buf', idx'))"
      by simp
    then show ?thesis
      unfolding v by (rule Cons.IH)
  next
    case True
    with Cons.prems obtain ev1 buf1 idx1 ev2 where
      s: "renderSingleBody eng scene S start b (buf, idx) = (ev1, Inr (buf1, idx1))" and
      r: "render_bodies eng scene S start bs (buf1, idx1) = (ev2, Inr (buf', idx'))" and
      ev: "ev = ev1 @ ev2"
      by (auto simp: bind_io_Inr_iff)
    note one = renderSingleBody_Inr [OF s]
    note rest = Cons.IH [OF r]
    let ?p = "nat (start + idx * S)"
    let ?m = "mask_of eng scene S b"
    let ?ms = "concat (map (mask_of eng scene S) (valid bs))"
    have p1: "nat (start + idx1 * S) = ?p + nat S"
      using one by (simp add: algebra_simps nat_add_distrib)
    have len1: "length buf1 = length buf"
      using one by (simp add: length_overwrite length_mask_of)
    have fit: "?p + nat S + length (valid bs) * nat S \<le> length buf"
    proof (cases "valid bs = []")
      case True
      with one show ?thesis by simp
    next
      case False
      with rest p1 len1 show ?thesis by simp
    qed
    have "buf' = overwrite (overwrite buf ?p ?m) (?p + length ?m) ?ms"
      using rest one p1 by (simp add: length_mask_of)
    also have "\<dots> = overwrite buf ?p (?m @ ?ms)"
      using fit by (intro overwrite_overwrite) (simp add: length_mask_of length_concat_masks)
    finally have buf': "buf' = overwrite buf ?p (?m @ ?ms)" .
    from rest have r1: "idx' = idx1 + int (length (valid bs))"
      and r2: "ev2 = concat (map (mask_events eng scene S) (valid bs))"
      and r3: "length buf' = length buf1"
      by blast+
    from one have o1: "idx1 = idx + 1" and o2: "ev1 = mask_events eng scene S b"
      and o3: "0 \<le> S" "0 \<le> start + idx * S"
      by blast+
    have v: "valid (b # bs) = b # valid bs"
      using True by simp
    show ?thesis
      unfolding v
    proof (intro conjI impI)
      show "idx' = idx + int (length (b # valid bs))"
        using r1 o1 by simp
      show "ev = concat (map (mask_events eng scene S) (b # valid bs))"
        using ev r2 o2 by simp
      show "0 \<le> S" "0 \<le> start + idx * S"
        using o3 by simp_all
      show "nat (start + idx * S) + length (b # valid bs) * nat S \<le> length buf"
        using fit by simp
      show "buf' = overwrite buf ?p (concat (map (mask_of eng scene S) (b # valid bs)))"
        using buf' by simp
      show "length buf' = length buf"
        using r3 len1 by simp
    qed
  qed
qed

lemma render_bodies_total:
  assumes "0 \<le> S" "0 \<le> idx"
    and "(idx + int (length (valid bs))) * S \<le> INT_MAX"
    and "idx + int (length (valid bs)) \<le> INT_MAX"
    and "0 \<le> start + idx * S"
    and "nat (start + idx * S) + length (valid bs) * nat S \<le> length buf"
  shows "render_bodies eng scene S start bs (buf, idx) =
           (concat (map (mask_events eng scene S) (valid bs)),
            Inr (overwrite buf (nat (start + idx * S)) (concat (map (mask_of eng scene S) (valid bs))),
                 idx + int (length (valid bs))))"
  using assms
proof (induction bs arbitrary: buf idx)
  case Nil
  then show ?case by (simp add: pure_io_def)
next
  case (Cons b bs)
  show ?case
  proof (cases "shapeType b \<noteq> UNDEFINED")
    case False
    with Cons show ?thesis by simp
  next
    case True
    let ?n = "int (length (valid bs))"
    let ?p = "nat (start + idx * S)"
    let ?m = "mask_of eng scene S b"
    let ?ms = "concat (map (mask_of eng scene S) (valid bs))"
    let ?buf1 = "overwrite buf ?p ?m"
    from True Cons.prems have n: "(idx + 1 + ?n) * S \<le> INT_MAX" "idx + 1 + ?n \<le> INT_MAX"
      and fit: "?p + nat S + length (valid bs) * nat S \<le> length buf"
      by (simp_all add: algebra_simps)
    have "idx * S \<le> (idx + 1 + ?n) * S"
      using Cons.prems(1,2) by (intro mult_right_mono) simp_all
    with n have i1: "idx * S \<le> INT_MAX" by simp
    have "0 \<le> idx * S"
      using Cons.prems(1,2) by simp
    then have i0: "INT_MIN \<le> idx * S" "INT_MIN \<le> idx + 1"
      using Cons.prems(2) by (simp_all add: INT_MIN_def)
    have i2: "idx + 1 \<le> INT_MAX"
      using n by simp
    have one: "renderSingleBody eng scene S start b (buf, idx) =
                 (mask_events eng scene S b, Inr (?buf1, idx + 1))"
      using Cons.prems(1,5) i0 i1 i2 fit by (intro renderSingleBody_total) simp_all
    have p1: "nat (start + (idx + 1) * S) = ?p + nat S"
      using Cons.prems(1,5) by (simp add: algebra_simps nat_add_distrib)
    have len1: "length ?buf1 = length buf"
      using fit by (simp add: length_overwrite length_mask_of)
    have rest: "render_bodies eng scene S start bs (?buf1, idx + 1) =
                  (concat (map (mask_events eng scene S) (valid bs)),
                   Inr (overwrite ?buf1 (nat (start + (idx + 1) * S)) ?ms, idx + 1 + ?n))"
      using Cons.prems(1,2,5) n fit p1 len1
      by (intro Cons.IH) (simp_all add: algebra_simps)
    have "overwrite ?buf1 (?p + length ?m) ?ms = overwrite buf ?p (?m @ ?ms)"
      using fit by (intro overwrite_overwrite) (simp add: length_mask_of length_concat_masks)
    with True one rest p1 show ?thesis
      by (simp add: bind_io_Inr length_mask_of)
  qed
qed


lemma bind_io_assoc: "bind_io (bind_io m f) g = bind_io m (\<lambda>x. bind_io (f x) g)"
  by (cases m; cases "snd m") (auto simp: bind_io_def split: prod.splits sum.splits)

lemma bind_pure_Inr: "bind_io (pure_io (Inr a)) f = f a"
  by (simp add: pure_io_def bind_io_def split: prod.splits)

lemma render_bodies_append:
  "render_bodies eng scene S start (xs @ ys) st =
     bind_io (render_bodies eng scene S start xs st) (render_bodies eng scene S start ys)"
proof (induction xs arbitrary: st)
  case Nil
  show ?case by (simp add: bind_pure_Inr)
next
  case (Cons b xs)
  have "render_bodies eng scene S start (xs @ ys) =
          (\<lambda>st. bind_io (render_bodies eng scene S start xs st) (render_bodies eng scene S start ys))"
    by (rule ext) (rule Cons.IH)
  then show ?case
    by (simp add: bind_io_assoc Cons.IH)
qed

lemma renderAll_eq:
  "renderAllObjectMasksTo eng scene buf start =
     bind_io (pure_io (to_int (sint (width scene) * sint (height scene)))) (\<lambda>S.
     bind_io (render_bodies eng scene S start (bodies scene @ user_input_bodies scene) (buf, 0))
       (\<lambda>(buf', currentObjectIndex). pure_io (Inr buf')))"
  by (simp add: renderAllObjectMasksTo_def render_bodies_append bind_io_assoc)

lemma renderAll_Inr:
  assumes "renderAllObjectMasksTo eng scene buf start = (ev, Inr buf')"
  defines "S \<equiv> sint (width scene) * sint (height scene)"
  defines "vs \<equiv> valid (bodies scene @ user_input_bodies scene)"
  shows "ev = concat (map (mask_events eng scene S) vs)"
    and "vs \<noteq> [] \<Longrightarrow> 0 \<le> S \<and> 0 \<le> start \<and> nat start + length vs * nat S \<le> length buf"
    and "buf' = overwrite buf (nat start) (concat (map (mask_of eng scene S) vs))"
    and "length buf' = length buf"
proof -
  from assms(1) obtain idx' where
    "render_bodies eng scene S start (bodies scene @ user_input_bodies scene) (buf, 0) =
       (ev, Inr (buf', idx'))"
    unfolding renderAll_eq S_def
    by (auto simp: bind_pure_Inr_iff bind_io_Inr_iff to_int_Inr_iff pure_io_eq_iff
          split: prod.splits)
  note r = render_bodies_Inr [OF this, folded vs_def]
  from r show "ev = concat (map (mask_events eng scene S) vs)" by simp
  from r show "buf' = overwrite buf (nat start) (concat (map (mask_of eng scene S) vs))" by simp
  from r show "length buf' = length buf" by blast
  from r show "vs \<noteq> [] \<Longrightarrow> 0 \<le> S \<and> 0 \<le> start \<and> nat start + length vs * nat S \<le> length buf"
    by simp
qed

lemma renderAll_total:
  fixes scene :: "'g Scene"
  defines "S \<equiv> sint (width scene) * sint (height scene)"
  defines "vs \<equiv> valid (bodies scene @ user_input_bodies scene)"
  assumes "0 \<le> S" "S \<le> INT_MAX" "int (length vs) * S \<le> INT_MAX" "int (length vs) \<le> INT_MAX"
    and "0 \<le> start" "nat start + length vs * nat S \<le> length buf"
  shows "renderAllObjectMasksTo eng scene buf start =
           (concat (map (mask_events eng scene S) vs),
            Inr (overwrite buf (nat start) (concat (map (mask_of eng scene S) vs))))"
proof -
  have "render_bodies eng scene S start (bodies scene @ user_input_bodies scene) (buf, 0) =
          (concat (map (mask_events eng scene S) vs),
           Inr (overwrite buf (nat (start + 0 * S)) (concat (map (mask_of eng scene S) vs)),
                0 + int (length vs)))"
    unfolding vs_def
    using assms(3-) by (intro render_bodies_total) (simp_all add: vs_def)
  moreover have "to_int S = Inr S"
    using assms(3,4) by (simp add: to_int_def INT_MIN_def)
  ultimately show ?thesis
    unfolding renderAll_eq by (simp add: S_def bind_pure_Inr bind_io_Inr pure_io_def)
qed

lemma rendered_scenes_append:
  "rendered_scenes (xs @ ys) = rendered_scenes xs @ rendered_scenes ys"
  by (induction xs rule: rendered_scenes.induct) simp_all

lemma warnings_append: "warnings (xs @ ys) = warnings xs @ warnings ys"
  by (induction xs rule: warnings.induct) simp_all

lemma rendered_scenes_masks:
  "rendered_scenes (concat (map (mask_events eng scene S) bs)) = map (singleObjectScene scene) bs"
  by (induction bs) (simp_all add: rendered_scenes_append mask_events_def Let_def)

lemma warnings_masks:
  "warnings (concat (map (mask_events eng scene S) bs)) =
     map (\<lambda>b. (S, length (image_values (render eng (singleObjectScene scene b)))))
       (filter (\<lambda>b. int (length (image_values (render eng (singleObjectScene scene b)))) \<noteq> S) bs)"
  by (induction bs) (simp_all add: warnings_append mask_events_def Let_def)

lemma overwrite_region:
  assumes "p + length xs \<le> length buf" "k + n \<le> length xs"
  shows "take n (drop (p + k) (overwrite buf p xs)) = take n (drop k xs)"
proof -
  have "length (take p buf) = p"
    using assms by simp
  then have "drop (p + k) (take p buf @ xs @ drop (p + length xs) buf) =
               drop k xs @ drop (p + length xs) buf"
    using assms by simp
  then show ?thesis
    using assms by (simp add: overwrite_def)
qed

lemma concat_block:
  assumes "\<forall>x\<in>set xs. length (f x) = n" "i < length xs"
  shows "take n (drop (i * n) (concat (map f xs))) = f (xs ! i)"
  using assms
proof (induction xs arbitrary: i)
  case Nil
  then show ?case by simp
next
  case (Cons x xs)
  show ?case
  proof (cases i)
    case 0
    with Cons.prems show ?thesis by simp
  next
    case (Suc j)
    with Cons.prems have "take n (drop (j * n) (concat (map f xs))) = f (xs ! j)"
      by (intro Cons.IH) simp_all
    with Suc Cons.prems show ?thesis by simp
  qed
qed

lemma mask_region:
  assumes "nat start + length vs * nat S \<le> length buf" "i < length vs"
  shows "take (nat S) (drop (nat start + i * nat S)
           (overwrite buf (nat start) (concat (map (mask_of eng scene S) vs)))) =
         mask_of eng scene S (vs ! i)"
proof -
  let ?ms = "concat (map (mask_of eng scene S) vs)"
  have "Suc i * nat S \<le> length vs * nat S"
    using assms(2) by (intro mult_le_mono1) simp
  then have "i * nat S + nat S \<le> length ?ms"
    by (simp add: length_concat_masks)
  with assms(1) have "take (nat S) (drop (nat start + i * nat S) (overwrite buf (nat start) ?ms)) =
      take (nat S) (drop (i * nat S) ?ms)"
    by (intro overwrite_region) (simp_all add: length_concat_masks)
  also have "\<dots> = mask_of eng scene S (vs ! i)"
    using assms(2) by (intro concat_block) (simp_all add: length_mask_of)
  finally show ?thesis .
qed

section \<open>Properties of renderAllObjectMasksTo\<close>

text \<open>
  Claim C5: when \<open>renderAllObjectMasksTo\<close> returns, it has called \<^verbatim>\<open>render\<close> once for each
  body whose shape type is not \<open>UNDEFINED\<close>, those of \<open>bodies\<close> first and then those of
  \<open>user_input_bodies\<close>, in list order, each time on the scene of the same width and height
  that holds this body only; and for the \<open>i\<close>-th such body, when the image has \<open>imageSize\<close>
  values, the \<open>imageSize\<close> cells of the buffer from offset \<open>i * imageSize\<close> after
  \<open>bufferStart\<close> hold that image.
\<close>

theorem C5_masks_in_body_order:
  fixes scene :: "'g Scene" and eng :: "('g, 'f) engine"
  defines "S \<equiv> sint (width scene) * sint (height scene)"
  defines "vs \<equiv> filter (\<lambda>b. shapeType b \<noteq> UNDEFINED) (bodies scene) @
                 filter (\<lambda>b. shapeType b \<noteq> UNDEFINED) (user_input_bodies scene)"
  assumes run: "renderAllObjectMasksTo eng scene buf bufferStart = (ev, Inr buf')"
  shows "rendered_scenes ev = map (singleObjectScene scene) vs \<and>
         (\<forall>i<length vs.
            int (length (image_values (render eng (singleObjectScene scene (vs ! i))))) = S \<longrightarrow>
            take (nat S) (drop (nat (bufferStart + int i * S)) buf') =
              map (\<lambda>v. Some (word_of_int v))
                (image_values (render eng (singleObjectScene scene (vs ! i)))))"
proof -
  have vs: "vs = valid (bodies scene @ user_input_bodies scene)"
    by (simp add: vs_def)
  note r = renderAll_Inr [OF run, folded S_def, folded vs]
  have "rendered_scenes ev = map (singleObjectScene scene) vs"
    by (simp add: r(1) rendered_scenes_masks)
  moreover have "take (nat S) (drop (nat (bufferStart + int i * S)) buf') =
                   map (\<lambda>v. Some (word_of_int v))
                     (image_values (render eng (singleObjectScene scene (vs ! i))))"
    if i: "i < length vs"
      and m: "int (length (image_values (render eng (singleObjectScene scene (vs ! i))))) = S"
    for i
  proof -
    from i have "vs \<noteq> []" by auto
    from r(2) [OF this] have b: "0 \<le> S" "0 \<le> bufferStart"
      "nat bufferStart + length vs * nat S \<le> length buf"
      by simp_all
    have "nat (bufferStart + int i * S) = nat bufferStart + i * nat S"
      using b by (simp add: nat_add_distrib nat_mult_distrib)
    then have "take (nat S) (drop (nat (bufferStart + int i * S)) buf') =
                 mask_of eng scene S (vs ! i)"
      using b(3) i by (simp add: r(3) mask_region)
    with m show ?thesis
      by (simp add: mask_of_def)
  qed
  ultimately show ?thesis by blast
qed




lemma example_masks_run:
  "renderAllObjectMasksTo example_engine example_scene (replicate 5 None) 1 =
     (example_mask_events, Inr [None, Some 1, Some 1, Some 0, Some 0])"
  by code_simp

theorem C5_witness:
  "renderAllObjectMasksTo example_engine example_scene (replicate 5 None) 1 =
     (example_mask_events, Inr [None, Some 1, Some 1, Some 0, Some 0]) \<and>
   rendered_scenes example_mask_events =
     [singleObjectScene example_scene \<lparr>shapeType = Shape 1, geometry = 7\<rparr>,
      singleObjectScene example_scene \<lparr>shapeType = Shape 2, geometry = 9\<rparr>] \<and>
   take 2 (drop 1 [None, Some 1, Some 1, Some 0, Some (0 :: uint8_t)]) =
     map (\<lambda>v. Some (word_of_int v))
       (image_values (render example_engine
          (singleObjectScene example_scene \<lparr>shapeType = Shape 1, geometry = 7\<rparr>)))"
proof -
  note c = C5_masks_in_body_order [OF example_masks_run]
  from c have "rendered_scenes example_mask_events =
      [singleObjectScene example_scene \<lparr>shapeType = Shape 1, geometry = 7\<rparr>,
       singleObjectScene example_scene \<lparr>shapeType = Shape 2, geometry = 9\<rparr>]"
    by (simp add: example_scene_def)
  moreover from c have "take 2 (drop 1 [None, Some 1, Some 1, Some 0, Some (0 :: uint8_t)]) =
     map (\<lambda>v. Some (word_of_int v))
       (image_values (render example_engine
          (singleObjectScene example_scene \<lparr>shapeType = Shape 1, geometry = 7\<rparr>)))"
    by (simp add: example_scene_def example_engine_def singleObjectScene_def)
  ultimately show ?thesis
    using example_masks_run by simp
qed

text \<open>
  Claim C7: provided that the region of the buffer after \<open>bufferStart\<close> has room for one
  mask per valid body and that sizes and offsets fit an \<^verbatim>\<open>int\<close>, \<open>renderAllObjectMasksTo\<close>
  returns whatever the sizes of the images that \<^verbatim>\<open>render\<close> gives. It has then called
  \<^verbatim>\<open>render\<close> for every valid body, written one warning for each body whose image does not
  have \<open>imageSize\<close> values, in order, and changed nothing outside the masks; the mask of the
  \<open>i\<close>-th valid body is the image if it has \<open>imageSize\<close> values and \<open>imageSize\<close> zeros otherwise.
\<close>

theorem C7_size_mismatch_is_zero_filled:
  fixes scene :: "'g Scene" and eng :: "('g, 'f) engine"
  defines "S \<equiv> sint (width scene) * sint (height scene)"
  defines "vs \<equiv> filter (\<lambda>b. shapeType b \<noteq> UNDEFINED) (bodies scene) @
                 filter (\<lambda>b. shapeType b \<noteq> UNDEFINED) (user_input_bodies scene)"
  defines "img \<equiv> \<lambda>b. image_values (render eng (singleObjectScene scene b))"
  assumes "0 \<le> S" "S \<le> INT_MAX" "int (length vs) * S \<le> INT_MAX" "int (length vs) \<le> INT_MAX"
    and "0 \<le> bufferStart" "nat bufferStart + length vs * nat S \<le> length buf"
  shows "\<exists>ev buf'.
           renderAllObjectMasksTo eng scene buf bufferStart = (ev, Inr buf') \<and>
           rendered_scenes ev = map (singleObjectScene scene) vs \<and>
           warnings ev =
             map (\<lambda>b. (S, length (img b))) (filter (\<lambda>b. int (length (img b)) \<noteq> S) vs) \<and>
           length buf' = length buf \<and>
           take (nat bufferStart) buf' = take (nat bufferStart) buf \<and>
           drop (nat bufferStart + length vs * nat S) buf' =
             drop (nat bufferStart + length vs * nat S) buf \<and>
           (\<forall>i<length vs.
              take (nat S) (drop (nat bufferStart + i * nat S) buf') =
                (if int (length (img (vs ! i))) = S
                 then map (\<lambda>v. Some (word_of_int v)) (img (vs ! i))
                 else replicate (nat S) (Some 0)))"
proof -
  have vs: "vs = valid (bodies scene @ user_input_bodies scene)"
    by (simp add: vs_def)
  let ?ms = "concat (map (mask_of eng scene S) vs)"
  let ?ev = "concat (map (mask_events eng scene S) vs)"
  let ?buf' = "overwrite buf (nat bufferStart) ?ms"
  have run: "renderAllObjectMasksTo eng scene buf bufferStart = (?ev, Inr ?buf')"
    unfolding S_def vs
    using assms(4-) by (intro renderAll_total) (simp_all add: S_def vs)
  have len: "length ?ms = length vs * nat S"
    by (simp add: length_concat_masks)
  have fit: "nat bufferStart + length ?ms \<le> length buf"
    using assms(9) len by simp
  then have p: "length (take (nat bufferStart) buf) = nat bufferStart"
    by simp
  have "rendered_scenes ?ev = map (singleObjectScene scene) vs"
    by (rule rendered_scenes_masks)
  moreover have "warnings ?ev =
      map (\<lambda>b. (S, length (img b))) (filter (\<lambda>b. int (length (img b)) \<noteq> S) vs)"
    by (simp add: warnings_masks img_def)
  moreover have "length ?buf' = length buf"
    using fit by (rule length_overwrite)
  moreover have "take (nat bufferStart) ?buf' = take (nat bufferStart) buf"
    using p by (simp add: overwrite_def)
  moreover have "drop (nat bufferStart + length vs * nat S) ?buf' =
                   drop (nat bufferStart + length vs * nat S) buf"
    using p len by (simp add: overwrite_def)
  moreover have "take (nat S) (drop (nat bufferStart + i * nat S) ?buf') =
                   (if int (length (img (vs ! i))) = S
                    then map (\<lambda>v. Some (word_of_int v)) (img (vs ! i))
                    else replicate (nat S) (Some 0))"
    if "i < length vs" for i
    using assms(9) that by (simp add: mask_region) (simp add: mask_of_def img_def)
  ultimately show ?thesis
    using run by blast
qed


theorem C7_witness:
  "renderAllObjectMasksTo example_engine example_scene (replicate 5 None) 1 =
     (example_mask_events, Inr [None, Some 1, Some 1, Some 0, Some 0]) \<and>
   int (length (image_values (render example_engine
          (singleObjectScene example_scene \<lparr>shapeType = Shape 2, geometry = 9\<rparr>)))) \<noteq>
     sint (width example_scene) * sint (height example_scene) \<and>
   warnings example_mask_events = [(2, 1)] \<and>
   take 2 (drop 3 [None, Some 1, Some 1, Some 0, Some (0 :: uint8_t)]) = replicate 2 (Some 0)"
proof -
  let ?vs = "filter (\<lambda>b. shapeType b \<noteq> UNDEFINED) (bodies example_scene) @
             filter (\<lambda>b. shapeType b \<noteq> UNDEFINED) (user_input_bodies example_scene)"
  let ?S = "sint (width example_scene) * sint (height example_scene)"
  have S: "?S = 2"
    by (simp add: example_scene_def)
  have vs: "?vs = [\<lparr>shapeType = Shape 1, geometry = 7\<rparr>, \<lparr>shapeType = Shape 2, geometry = 9\<rparr>]"
    by (simp add: example_scene_def)
  have pre: "0 \<le> ?S" "?S \<le> INT_MAX" "int (length ?vs) * ?S \<le> INT_MAX"
    "int (length ?vs) \<le> INT_MAX" "(0::int) \<le> 1"
    "nat 1 + length ?vs * nat ?S \<le> length (replicate 5 (None :: uint8_t option))"
    unfolding S vs by (simp_all add: INT_MAX_def)
  from C7_size_mismatch_is_zero_filled [OF pre, of example_engine]
  obtain ev buf' where
    run: "renderAllObjectMasksTo example_engine example_scene (replicate 5 None) 1 = (ev, Inr buf')"
    and w: "warnings ev =
         map (\<lambda>b. (?S, length (image_values (render example_engine (singleObjectScene example_scene b)))))
           (filter (\<lambda>b. int (length (image_values (render example_engine
                      (singleObjectScene example_scene b)))) \<noteq> ?S) ?vs)"
    and z: "\<forall>i<length ?vs.
              take (nat ?S) (drop (nat 1 + i * nat ?S) buf') =
                (if int (length (image_values (render example_engine
                      (singleObjectScene example_scene (?vs ! i))))) = ?S
                 then map (\<lambda>v. Some (word_of_int v))
                        (image_values (render example_engine (singleObjectScene example_scene (?vs ! i))))
                 else replicate (nat ?S) (Some 0))"
    by blast
  from run example_masks_run have ev: "ev = example_mask_events"
    and buf': "buf' = [None, Some 1, Some 1, Some 0, Some 0]"
    by simp_all
  have m: "int (length (image_values (render example_engine
          (singleObjectScene example_scene \<lparr>shapeType = Shape 2, geometry = 9\<rparr>)))) \<noteq> ?S"
    unfolding S by (simp add: example_engine_def singleObjectScene_def)
  have "(1::nat) < length ?vs"
    unfolding vs by simp
  with z have "take (nat ?S) (drop (nat 1 + 1 * nat ?S) buf') =
                (if int (length (image_values (render example_engine
                      (singleObjectScene example_scene (?vs ! 1))))) = ?S
                 then map (\<lambda>v. Some (word_of_int v))
                        (image_values (render example_engine (singleObjectScene example_scene (?vs ! 1))))
                 else replicate (nat ?S) (Some 0))"
    by blast
  with m have "take 2 (drop 3 [None, Some 1, Some 1, Some 0, Some (0 :: uint8_t)]) = replicate 2 (Some 0)"
    unfolding buf' vs S by simp
  moreover from w m have "warnings example_mask_events = [(2, 1)]"
    unfolding ev vs S by (simp add: example_engine_def singleObjectScene_def)
  ultimately show ?thesis
    using example_masks_run m by blast
qed

section \<open>Properties of magic_ponies\<close>

lemma snd_bind_io_Inr_iff:
  "snd (bind_io m f) = Inr b \<longleftrightarrow> (\<exists>a. snd m = Inr a \<and> snd (f a) = Inr b)"
  by (cases m; cases "snd m") (auto simp: bind_io_def split: prod.splits)

lemma snd_pure_io [simp]: "snd (pure_io r) = r"
  by (simp add: pure_io_def)

lemma fst_pure_io [simp]: "fst (pure_io r) = []"
  by (simp add: pure_io_def)

lemma snd_emit [simp]: "snd (emit e) = Inr ()"
  by (simp add: emit_def)

lemma fst_emit [simp]: "fst (emit e) = [e]"
  by (simp add: emit_def)

lemma renderAll_length:
  assumes "snd (renderAllObjectMasksTo eng scene buf start) = Inr buf'"
  shows "length buf' = length buf"
proof -
  from assms have "renderAllObjectMasksTo eng scene buf start =
      (fst (renderAllObjectMasksTo eng scene buf start), Inr buf')"
    by (simp add: prod_eq_iff)
  then show ?thesis
    by (rule renderAll_Inr(4))
qed

lemma write_at_length: "write_at buf p xs = Inr buf' \<Longrightarrow> length buf' = length buf"
  by (auto simp: write_at_Inr_iff length_overwrite)

lemma images_loop_lengths:
  "snd (images_loop eng nm S n scenes (im, ms, iw, si)) = Inr (im', ms', iw', si') \<Longrightarrow>
     length im' = length im \<and> length ms' = length ms"
proof (induction scenes arbitrary: im ms iw si)
  case Nil
  then show ?case by simp
next
  case (Cons scene rest)
  from Cons.prems obtain im1 ms1 iw1 si1 where
    w: "write_at im iw (renderTo eng scene) = Inr im1" and
    m: "length ms1 = length ms" and
    r: "snd (images_loop eng nm S n rest (im1, ms1, iw1, si1)) = Inr (im', ms', iw', si')"
    by (auto simp: snd_bind_io_Inr_iff split: if_splits dest: renderAll_length)
  have "length im1 = length im"
    using w by (rule write_at_length)
  with m show ?case
    using Cons.IH [OF r] by simp
qed

lemma pack_results_sizes:
  fixes simulation :: "'g TaskSimulation" and task :: "'g Task"
  defines "F \<equiv> int (length (sceneList simulation))"
  defines "S \<equiv> sint (width (task_scene task)) * sint (height (task_scene task))"
  assumes run: "snd (pack_results eng task simulation True nf nm) = Inr r"
  shows "\<exists>n. getNumObjects simulation = Inr n \<and> numSceneObjects r = n \<and>
           array_size (packedImagesArray r) = F * S \<and>
           int (length (array_data (packedImagesArray r))) = F * S \<and>
           int (length (packedObjectMasks r)) = F * n * S \<and>
           (nm \<longrightarrow> array_size (packedObjectMasksArray r) = F * n * S \<and>
                   array_data (packedObjectMasksArray r) = packedObjectMasks r)"
proof -
  from run obtain n im0 ms0 im1 ms1 iw si where
    n: "getNumObjects simulation = Inr n" and
    im0: "new_array (S * F) = Inr im0" and
    ms0: "new_array (S * F * n) = Inr ms0" and
    loop: "F > 0 \<Longrightarrow>
      snd (images_loop eng nm S n (sceneList simulation) (im0, ms0, 0, 0)) = Inr (im1, ms1, iw, si)" and
    skip: "\<not> F > 0 \<Longrightarrow> im1 = im0 \<and> ms1 = ms0" and
    r1: "numSceneObjects r = n" and
    r2: "packedImagesArray r = \<lparr>array_size = F * S, array_data = im1\<rparr>" and
    r3: "packedObjectMasks r = ms1" and
    r4: "nm \<Longrightarrow> packedObjectMasksArray r = \<lparr>array_size = F * n * S, array_data = ms1\<rparr>"
    unfolding pack_results_def F_def S_def
    by (auto simp: snd_bind_io_Inr_iff to_int_Inr_iff make_array_def split: if_splits prod.splits)
  have "length im1 = length im0 \<and> length ms1 = length ms0"
    using loop skip by (cases "F > 0") (auto dest: images_loop_lengths)
  moreover from im0 have "int (length im0) = S * F"
    by (auto simp: new_array_def split: if_splits)
  moreover from ms0 have "int (length ms0) = S * F * n"
    by (auto simp: new_array_def split: if_splits)
  ultimately show ?thesis
    using n r1 r2 r3 r4 by (auto simp: ac_simps)
qed


lemma snd_magic_ponies_Inr:
  assumes "snd (magic_ponies eng serialized_task user_input keep steps stride ni nf nm) = Inr r"
  shows "\<exists>task0. deserialize eng serialized_task = Inr task0 \<and>
           snd (pack_results eng
                  (task0\<lparr>task_scene := addUserInputToScene eng user_input keep False (task_scene task0)\<rparr>)
                  (simulateTask eng
                     (task0\<lparr>task_scene := addUserInputToScene eng user_input keep False (task_scene task0)\<rparr>)
                     steps stride)
                  ni nf nm) = Inr r"
  using assms by (auto simp: magic_ponies_def Let_def snd_bind_io_Inr_iff)

text \<open>
  Claim C3: a call of \<open>magic_ponies\<close> with \<open>need_images\<close> that returns, over a simulation of
  \<open>F\<close> frames with \<open>n\<close> objects and an image size \<open>S\<close>, returns \<open>n\<close> as the number of objects
  and an images array of size \<open>F * S\<close> over a buffer of \<open>F * S\<close> bytes; the block
  \<open>packedObjectMasks\<close> has \<open>F * n * S\<close> bytes whatever \<open>need_object_masks\<close> is; and with
  \<open>need_object_masks\<close> the returned masks array has size \<open>F * n * S\<close> and is over this block.
\<close>

theorem C3_packed_buffer_sizes:
  fixes eng :: "('g, 'f) engine"
  assumes run: "snd (magic_ponies eng serialized_task user_input keep steps stride
                      True need_featurized_objects need_object_masks) = Inr r"
    and dec: "deserialize eng serialized_task = Inr task0"
  defines "task \<equiv> task0\<lparr>task_scene :=
                      addUserInputToScene eng user_input keep False (task_scene task0)\<rparr>"
  defines "simulation \<equiv> simulateTask eng task steps stride"
  defines "F \<equiv> int (length (sceneList simulation))"
  defines "S \<equiv> sint (width (task_scene task)) * sint (height (task_scene task))"
  shows "\<exists>n. getNumObjects simulation = Inr n \<and> numSceneObjects r = n \<and>
           array_size (packedImagesArray r) = F * S \<and>
           int (length (array_data (packedImagesArray r))) = F * S \<and>
           int (length (packedObjectMasks r)) = F * n * S \<and>
           (need_object_masks \<longrightarrow>
              array_size (packedObjectMasksArray r) = F * n * S \<and>
              array_data (packedObjectMasksArray r) = packedObjectMasks r)"
proof -
  from snd_magic_ponies_Inr [OF run] dec
  have "snd (pack_results eng task simulation True need_featurized_objects need_object_masks) = Inr r"
    by (simp add: task_def simulation_def)
  from pack_results_sizes [OF this] show ?thesis
    by (simp add: F_def S_def)
qed

lemma fst_bind_io:
  "fst (bind_io m f) = (case snd m of Inl e \<Rightarrow> fst m | Inr a \<Rightarrow> fst m @ fst (f a))"
  by (cases m; cases "snd m") (auto simp: bind_io_def split: prod.splits)

lemma no_render_bind:
  assumes "rendered_scenes (fst m) = []"
    and "\<And>a. snd m = Inr a \<Longrightarrow> rendered_scenes (fst (f a)) = []"
  shows "rendered_scenes (fst (bind_io m f)) = []"
  using assms by (simp add: fst_bind_io rendered_scenes_append split: sum.splits)

lemma features_loop_no_render:
  "rendered_scenes (fst (features_loop eng n scenes st)) = []"
proof (induction scenes arbitrary: st)
  case Nil
  show ?case by simp
next
  case (Cons scene rest)
  show ?case
    by (cases st) (simp add: no_render_bind Cons.IH)
qed

lemma pack_results_no_images_no_render:
  "rendered_scenes (fst (pack_results eng task simulation False nf nm)) = []"
  unfolding pack_results_def
  by (intro no_render_bind)
     (auto simp: to_int_Inr_iff features_loop_no_render intro!: no_render_bind split: prod.splits)


lemma magic_ponies_no_images_no_render:
  "rendered_scenes (fst (magic_ponies eng serialized_task user_input keep steps stride
                           False nf nm)) = []"
  unfolding magic_ponies_def Let_def
  by (intro no_render_bind) (simp_all add: pack_results_no_images_no_render)

lemma pack_results_no_images_masks:
  assumes run: "snd (pack_results eng task simulation False nf nm) = Inr r"
  shows "array_size (packedObjectMasksArray r) = 0 \<and>
         array_data (packedObjectMasksArray r) = [] \<and> packedObjectMasks r = []"
proof -
  from run obtain ms0 :: "uint8_t buffer" and k where
    ms0: "new_array (0 :: int) = Inr ms0" and
    r3: "packedObjectMasks r = ms0" and
    r4: "packedObjectMasksArray r = \<lparr>array_size = 0, array_data = (if nm then ms0 else [])\<rparr>"
    unfolding pack_results_def
    by (auto simp: snd_bind_io_Inr_iff to_int_Inr_iff make_array_def split: if_splits prod.splits)
  from ms0 have "ms0 = []"
    by (simp add: new_array_def)
  with r3 r4 show ?thesis by simp
qed

text \<open>
  Claim C10: in a call of \<open>magic_ponies\<close> without \<open>need_images\<close>, whatever
  \<open>need_object_masks\<close> is, \<^verbatim>\<open>render\<close> is never called (also in a call that does not return),
  and if the call returns, the masks array has size 0 and no cell, and the block
  \<open>packedObjectMasks\<close> is empty.
\<close>

theorem C10_no_images_no_masks:
  "rendered_scenes (fst (magic_ponies eng serialized_task user_input keep steps stride
                           False need_featurized_objects need_object_masks)) = [] \<and>
   (\<forall>r. snd (magic_ponies eng serialized_task user_input keep steps stride
                 False need_featurized_objects need_object_masks) = Inr r \<longrightarrow>
        array_size (packedObjectMasksArray r) = 0 \<and>
        array_data (packedObjectMasksArray r) = [] \<and>
        packedObjectMasks r = [])"
proof (intro conjI allI impI)
  show "rendered_scenes (fst (magic_ponies eng serialized_task user_input keep steps stride
                           False need_featurized_objects need_object_masks)) = []"
    by (rule magic_ponies_no_images_no_render)
next
  fix r
  assume "snd (magic_ponies eng serialized_task user_input keep steps stride
                 False need_featurized_objects need_object_masks) = Inr r"
  from snd_magic_ponies_Inr [OF this] obtain task0 where
    "snd (pack_results eng
            (task0\<lparr>task_scene := addUserInputToScene eng user_input keep False (task_scene task0)\<rparr>)
            (simulateTask eng
               (task0\<lparr>task_scene := addUserInputToScene eng user_input keep False (task_scene task0)\<rparr>)
               steps stride)
            False need_featurized_objects need_object_masks) = Inr r"
    by blast
  from pack_results_no_images_masks [OF this]
  show "array_size (packedObjectMasksArray r) = 0"
    and "array_data (packedObjectMasksArray r) = []"
    and "packedObjectMasks r = []"
    by simp_all
qed


theorem C3_witness:
  "snd (magic_ponies example_engine [1] example_input True 2 1 True False True) =
     Inr example_result \<and>
   deserialize example_engine [1] = Inr example_task \<and>
   numSceneObjects example_result = 2 \<and>
   array_size (packedImagesArray example_result) = 2 * 2 \<and>
   int (length (array_data (packedImagesArray example_result))) = 2 * 2 \<and>
   int (length (packedObjectMasks example_result)) = 2 * 2 * 2 \<and>
   array_size (packedObjectMasksArray example_result) = 2 * 2 * 2 \<and>
   array_data (packedObjectMasksArray example_result) = packedObjectMasks example_result"
proof -
  let ?task = "example_task\<lparr>task_scene :=
                 addUserInputToScene example_engine example_input True False
                   (task_scene example_task)\<rparr>"
  let ?sim = "simulateTask example_engine ?task 2 1"
  have run: "snd (magic_ponies example_engine [1] example_input True 2 1 True False True) =
               Inr example_result"
    by code_simp
  have dec: "deserialize example_engine [1] = Inr example_task"
    by code_simp
  have n: "getNumObjects ?sim = Inr 2"
    by code_simp
  have F: "int (length (sceneList ?sim)) = 2"
    by (simp add: example_engine_def)
  have S: "sint (width (task_scene ?task)) * sint (height (task_scene ?task)) = 2"
    by (simp add: example_task_def example_scene_def addUserInputToScene_def split: prod.splits)
  from C3_packed_buffer_sizes [OF run dec] show ?thesis
    unfolding n F S using run dec by simp
qed

theorem C10_witness:
  "snd (magic_ponies example_engine [1] example_input True 2 1 False True True) =
     Inr example_result_no_images \<and>
   rendered_scenes (fst (magic_ponies example_engine [1] example_input True 2 1 False True True)) = [] \<and>
   array_size (packedObjectMasksArray example_result_no_images) = 0 \<and>
   array_data (packedObjectMasksArray example_result_no_images) = [] \<and>
   packedObjectMasks example_result_no_images = []"
proof -
  have run: "snd (magic_ponies example_engine [1] example_input True 2 1 False True True) =
               Inr example_result_no_images"
    by code_simp
  note c = C10_no_images_no_masks [of example_engine "[1]" example_input True 2 1 True True]
  from c have "rendered_scenes
      (fst (magic_ponies example_engine [1] example_input True 2 1 False True True)) = []"
    by blast
  moreover from c run have "array_size (packedObjectMasksArray example_result_no_images) = 0 \<and>
      array_data (packedObjectMasksArray example_result_no_images) = [] \<and>
      packedObjectMasks example_result_no_images = []"
    by blast
  ultimately show ?thesis
    using run by blast
qed

text \<open>The loop over the frames returns, whatever the sizes of the images that \<^verbatim>\<open>render\<close>
  gives, when every frame has the image size and the number of valid bodies that the
  buffers were allocated for: with \<open>need_object_masks\<close>, every valid body of every frame is
  rendered, in order.\<close>

lemma images_loop_total:
  assumes frames: "\<forall>scene\<in>set scenes. frame_like eng S n scene"
    and T: "si + int (length scenes) = T"
    and nonneg: "0 \<le> S" "0 \<le> n" "0 \<le> si"
    and iw: "iw = si * S"
    and fits: "T * n * S \<le> INT_MAX" "T * S \<le> INT_MAX" "T * n \<le> INT_MAX" "T \<le> INT_MAX"
      "n \<le> INT_MAX" "S \<le> INT_MAX" "n * S \<le> INT_MAX"
    and room: "int (length images) = T * S" "int (length masks) = T * n * S"
  shows "\<exists>ev images' masks'.
           images_loop eng nm S n scenes (images, masks, iw, si) =
             (ev, Inr (images', masks', T * S, T)) \<and>
           (nm \<longrightarrow> rendered_scenes ev =
              concat (map (\<lambda>scene. map (singleObjectScene scene)
                                     (valid (bodies scene @ user_input_bodies scene))) scenes))"
  using frames T nonneg(3) iw room
proof (induction scenes arbitrary: images masks iw si)
  case Nil
  then show ?case
    by (simp add: pure_io_def)
next
  case (Cons scene rest)
  let ?vs = "valid (bodies scene @ user_input_bodies scene)"
  from Cons.prems have f: "sint (width scene) * sint (height scene) = S"
    "int (length ?vs) = n" "int (length (renderTo eng scene)) = S"
    by (simp_all add: frame_like_def)
  from Cons.prems have si: "0 \<le> si" "si + 1 \<le> T" and T': "si + 1 + int (length rest) = T"
    by simp_all
  have m1: "(si + 1) * S \<le> T * S"
    using si nonneg(1) by (intro mult_right_mono) simp_all
  have m2: "si * n \<le> T * n"
    using si nonneg(2) by (intro mult_right_mono) simp_all
  have m3: "(si + 1) * n \<le> T * n"
    using si nonneg(2) by (intro mult_right_mono) simp_all
  have m4: "(si + 1) * n * S \<le> T * n * S"
    using mult_right_mono [OF m3 nonneg(1)] by simp
  have z: "0 \<le> si * S" "0 \<le> si * n" "0 \<le> si * n * S"
    using si nonneg by simp_all
  have min: "INT_MIN \<le> 0"
    by (simp add: INT_MIN_def)
  \<comment> \<open>the frame is written\<close>
  let ?images1 = "overwrite images (nat (si * S)) (map Some (renderTo eng scene))"
  have w: "write_at images iw (renderTo eng scene) = Inr ?images1"
    using Cons.prems(4,5) f(3) z(1) m1 nonneg(1)
    by (simp add: write_at_Inr_iff algebra_simps)
  have len1: "int (length ?images1) = T * S"
    using w Cons.prems(5) by (simp add: write_at_length)
  have t1: "to_int (iw + S) = Inr ((si + 1) * S)"
    using Cons.prems(4) m1 fits(2) z(1) nonneg(1) min
    by (simp add: to_int_def algebra_simps)
  \<comment> \<open>the masks of the frame are written\<close>
  have t2: "to_int (si * n) = Inr (si * n)"
    using m2 fits(3) z(2) min by (simp add: to_int_def)
  have "si * n * S \<le> (si + 1) * n * S"
    using nonneg si by (simp add: algebra_simps)
  with m4 fits(1) have le3: "si * n * S \<le> INT_MAX" "si * n * S + n * S \<le> T * n * S"
    by (simp_all add: algebra_simps)
  have t3: "to_int (si * n * S) = Inr (si * n * S)"
    using le3 z(3) min by (simp add: to_int_def)
  let ?masks1 = "overwrite masks (nat (si * n * S)) (concat (map (mask_of eng scene S) ?vs))"
  have fitm: "nat (si * n * S) + length ?vs * nat S \<le> length masks"
  proof -
    have "int (nat (si * n * S) + length ?vs * nat S) = si * n * S + n * S"
      using z(3) nonneg(1) f(2) by simp
    with le3(2) Cons.prems(6) show ?thesis
      by linarith
  qed
  have ra: "renderAllObjectMasksTo eng scene masks (si * n * S) =
              (concat (map (mask_events eng scene S) ?vs), Inr ?masks1)"
    using renderAll_total [of scene "si * n * S" masks eng]
      f(1,2) nonneg(1) fits(5,6,7) z(3) fitm
    by simp
  have lenm: "length ?masks1 = length masks"
    using fitm by (intro length_overwrite) (simp add: length_concat_masks add_mult_distrib)
  have t4: "to_int (si + 1) = Inr (si + 1)"
    using si fits(4) min by (simp add: to_int_def)
  \<comment> \<open>the remaining frames\<close>
  let ?masks' = "if nm then ?masks1 else masks"
  have "\<exists>ev images' masks'.
          images_loop eng nm S n rest (?images1, ?masks', (si + 1) * S, si + 1) =
            (ev, Inr (images', masks', T * S, T)) \<and>
          (nm \<longrightarrow> rendered_scenes ev =
             concat (map (\<lambda>scene. map (singleObjectScene scene)
                                    (valid (bodies scene @ user_input_bodies scene))) rest))"
    using Cons.prems(1) T' si(1) len1 lenm Cons.prems(6)
    by (intro Cons.IH) simp_all
  then obtain ev images' masks' where
    rest: "images_loop eng nm S n rest (?images1, ?masks', (si + 1) * S, si + 1) =
             (ev, Inr (images', masks', T * S, T))" and
    rs: "nm \<Longrightarrow> rendered_scenes ev =
           concat (map (\<lambda>scene. map (singleObjectScene scene)
                                  (valid (bodies scene @ user_input_bodies scene))) rest)"
    by blast
  show ?case
  proof (cases nm)
    case True
    with w t1 t2 t3 ra t4 rest rs show ?thesis
      by (simp add: bind_io_Inr bind_pure_Inr emit_def rendered_scenes_append
            rendered_scenes_masks)
  next
    case False
    with w t1 t4 rest show ?thesis
      by (simp add: bind_io_Inr bind_pure_Inr emit_def)
  qed
qed

text \<open>The loop over the frames that writes the features returns when \<^verbatim>\<open>featurizeScene\<close>
  writes \<open>kObjectFeatureSize * n\<close> values for every frame and the buffer has room for them.\<close>

lemma features_loop_total:
  assumes frames: "\<forall>scene\<in>set scenes. int (length (featurizeScene eng scene)) = P"
    and P: "P = kObjectFeatureSize eng * n" "0 \<le> P"
    and T: "j + int (length scenes) = T" "0 \<le> j"
    and wi: "writeIndex = j * P"
    and fits: "T * P \<le> INT_MAX"
    and room: "int (length features) = T * P"
  shows "\<exists>ev features'.
           features_loop eng n scenes (features, writeIndex) = (ev, Inr (features', T * P)) \<and>
           rendered_scenes ev = [] \<and> length features' = length features"
  using frames T wi room
proof (induction scenes arbitrary: features writeIndex j)
  case Nil
  then show ?case
    by (simp add: pure_io_def)
next
  case (Cons scene rest)
  from Cons.prems have f: "int (length (featurizeScene eng scene)) = P"
    and j: "0 \<le> j" "j + 1 \<le> T" and T': "j + 1 + int (length rest) = T"
    by simp_all
  have m1: "(j + 1) * P \<le> T * P"
    using j P(2) by (intro mult_right_mono) simp_all
  have z: "0 \<le> j * P"
    using j P(2) by simp
  have "P \<le> (j + 1) * P"
    using z by (simp add: algebra_simps)
  with m1 fits have pmax: "P \<le> INT_MAX" "(j + 1) * P \<le> INT_MAX"
    by simp_all
  have min: "INT_MIN \<le> 0"
    by (simp add: INT_MIN_def)
  let ?features1 = "overwrite features (nat (j * P)) (map Some (featurizeScene eng scene))"
  have w: "write_at features writeIndex (featurizeScene eng scene) = Inr ?features1"
    using Cons.prems(4,5) f z m1 P(2)
    by (simp add: write_at_Inr_iff algebra_simps)
  have len1: "length ?features1 = length features"
    using w by (rule write_at_length)
  have t1: "to_int (kObjectFeatureSize eng * n) = Inr P"
    using P pmax min by (simp add: to_int_def)
  have t2: "to_int (writeIndex + P) = Inr ((j + 1) * P)"
    using Cons.prems(4) pmax z P(2) min by (simp add: to_int_def algebra_simps)
  have "\<exists>ev features'.
          features_loop eng n rest (?features1, (j + 1) * P) = (ev, Inr (features', T * P)) \<and>
          rendered_scenes ev = [] \<and> length features' = length ?features1"
    using Cons.prems(1,5) T' j(1) len1
    by (intro Cons.IH [where j = "j + 1"]) simp_all
  then obtain ev features' where
    rest: "features_loop eng n rest (?features1, (j + 1) * P) = (ev, Inr (features', T * P))"
    and rs: "rendered_scenes ev = []" and len: "length features' = length ?features1"
    by blast
  from w t1 t2 rest rs len len1 show ?case
    by (simp add: bind_io_Inr bind_pure_Inr emit_def)
qed


lemma to_int_nonneg: "0 \<le> v \<Longrightarrow> v \<le> INT_MAX \<Longrightarrow> to_int v = Inr v"
  by (simp add: to_int_def INT_MIN_def)

lemma new_array_nonneg: "0 \<le> v \<Longrightarrow> new_array v = Inr (replicate (nat v) None)"
  by (simp add: new_array_def)

lemma make_array_nonneg:
  "0 \<le> v \<Longrightarrow> make_array v buf = Inr \<lparr>array_size = v, array_data = buf\<rparr>"
  by (simp add: make_array_def)

lemma getNumObjects_range:
  assumes "getNumObjects simulation = Inr n"
  shows "0 \<le> n \<and> n \<le> INT_MAX"
proof (cases "sceneList simulation = []")
  case True
  with assms show ?thesis
    by (simp add: getNumObjects_def INT_MAX_def)
next
  case False
  with assms have "count_loop (bodies (sceneList simulation ! 0) @
                      user_input_bodies (sceneList simulation ! 0)) 0 = Inr n"
    by (simp add: getNumObjects_def getNumObjectsInScene_def)
  then show ?thesis
    by (simp add: count_loop_eq INT_MIN_def INT_MAX_def to_int_Inr_iff del: filter_append)
qed

lemma pack_results_returns:
  fixes eng :: "('g, 'f) engine" and task :: "'g Task" and simulation :: "'g TaskSimulation"
  defines "F \<equiv> int (length (sceneList simulation))"
  defines "S \<equiv> sint (width (task_scene task)) * sint (height (task_scene task))"
  defines "k \<equiv> kObjectFeatureSize eng"
  assumes n: "getNumObjects simulation = Inr n"
    and frames: "\<forall>scene\<in>set (sceneList simulation).
                   frame_like eng S n scene \<and> int (length (featurizeScene eng scene)) = k * n"
    and nonneg: "0 \<le> S" "0 \<le> k"
    and fits: "F * n * S \<le> INT_MAX" "F * S \<le> INT_MAX" "F * n \<le> INT_MAX" "F \<le> INT_MAX"
      "S \<le> INT_MAX" "n * S \<le> INT_MAX" "n * k \<le> INT_MAX" "F * n * k \<le> INT_MAX"
  shows "\<exists>ev r. pack_results eng task simulation ni nf nm = (ev, Inr r)"
proof -
  define Fi where "Fi = (if ni then F else 0)"
  define Ff where "Ff = (if nf then F else 0)"
  have n0: "0 \<le> n"
    using getNumObjects_range [OF n] by simp
  have F0: "0 \<le> F"
    by (simp add: F_def)
  have min: "INT_MIN \<le> 0"
    by (simp add: INT_MIN_def)
  have max: "0 \<le> INT_MAX"
    by (simp add: INT_MAX_def)
  have Fi: "0 \<le> Fi" "Fi \<le> INT_MAX" "0 \<le> S * Fi" "S * Fi \<le> INT_MAX"
    "0 \<le> S * Fi * n" "S * Fi * n \<le> INT_MAX" "0 \<le> Fi * n" "Fi * n \<le> INT_MAX"
    using F0 n0 nonneg fits max by (auto simp: Fi_def ac_simps)
  have Ff: "0 \<le> Ff" "Ff \<le> INT_MAX" "0 \<le> n * k * Ff" "n * k * Ff \<le> INT_MAX"
    "0 \<le> Ff * n" "Ff * n \<le> INT_MAX" "0 \<le> Ff * n * k" "Ff * n * k \<le> INT_MAX" "0 \<le> n * k"
    using F0 n0 nonneg fits max by (auto simp: Ff_def ac_simps)
  have a1: "to_int (if ni then int (length (sceneList simulation)) else 0) = Inr Fi"
    using fits(4) F0 min max by (cases ni) (simp_all add: to_int_def Fi_def F_def)
  have a2: "to_int (if nf then int (length (sceneList simulation)) else 0) = Inr Ff"
    using fits(4) F0 min max by (cases nf) (simp_all add: to_int_def Ff_def F_def)
  have a3: "to_int (sint (width (task_scene task)) * sint (height (task_scene task))) = Inr S"
    using nonneg(1) fits(5) min by (simp add: to_int_def S_def)
  have a4: "to_int (S * Fi) = Inr (S * Fi)" "to_int (S * Fi * n) = Inr (S * Fi * n)"
    "to_int (Fi * S) = Inr (Fi * S)" "to_int (Fi * n) = Inr (Fi * n)"
    "to_int (Fi * n * S) = Inr (Fi * n * S)"
    using Fi min by (simp_all add: to_int_def ac_simps)
  have a5: "to_int (n * k) = Inr (n * k)" "to_int (n * k * Ff) = Inr (n * k * Ff)"
    "to_int (Ff * n) = Inr (Ff * n)" "to_int (Ff * n * k) = Inr (Ff * n * k)"
    using Ff fits(7) by (blast intro: to_int_nonneg)+
  let ?im0 = "replicate (nat (S * Fi)) None :: uint8_t buffer"
  let ?ms0 = "replicate (nat (S * Fi * n)) None :: uint8_t buffer"
  let ?fs0 = "replicate (nat (n * k * Ff)) None :: 'f buffer"
  have a6: "new_array (S * Fi) = Inr ?im0" "new_array (S * Fi * n) = Inr ?ms0"
    using Fi(3,5) by (blast intro: new_array_nonneg)+
  have a6': "new_array (n * k * Ff) = Inr ?fs0"
    using Ff(3) by (rule new_array_nonneg)
  have "\<exists>ev st. (if Fi > 0
                 then images_loop eng nm S n (sceneList simulation) (?im0, ?ms0, 0, 0)
                 else pure_io (Inr (?im0, ?ms0, 0, 0))) = (ev, Inr st)"
  proof (cases "Fi > 0")
    case False
    then show ?thesis by (simp add: pure_io_def)
  next
    case True
    then have eq: "Fi = F"
      by (simp add: Fi_def split: if_splits)
    have "\<exists>ev images' masks'.
            images_loop eng nm S n (sceneList simulation) (?im0, ?ms0, 0, 0) =
              (ev, Inr (images', masks', F * S, F)) \<and>
            (nm \<longrightarrow> rendered_scenes ev =
               concat (map (\<lambda>scene. map (singleObjectScene scene)
                                      (valid (bodies scene @ user_input_bodies scene)))
                         (sceneList simulation)))"
      using frames nonneg(1) n0 fits getNumObjects_range [OF n] Fi(3,5)
      by (intro images_loop_total) (simp_all add: F_def [symmetric] eq ac_simps)
    with True show ?thesis by auto
  qed
  then obtain ev1 im1 ms1 iw1 si1 where
    a7: "(if Fi > 0
          then images_loop eng nm S n (sceneList simulation) (?im0, ?ms0, 0, 0)
          else pure_io (Inr (?im0, ?ms0, 0, 0))) = (ev1, Inr (im1, ms1, iw1, si1))"
    by (metis prod_cases4)
  have "\<exists>ev st. (if Ff > 0
                 then features_loop eng n (sceneList simulation) (?fs0, 0)
                 else pure_io (Inr (?fs0, 0))) = (ev, Inr st)"
  proof (cases "Ff > 0")
    case False
    then show ?thesis by (simp add: pure_io_def)
  next
    case True
    then have eq: "Ff = F"
      by (simp add: Ff_def split: if_splits)
    have "\<exists>ev features'.
            features_loop eng n (sceneList simulation) (?fs0, 0) = (ev, Inr (features', F * (k * n))) \<and>
            rendered_scenes ev = [] \<and> length features' = length ?fs0"
      using frames nonneg(2) n0 fits(8) Ff(3)
      by (intro features_loop_total [where j = 0])
         (simp_all add: F_def [symmetric] k_def [symmetric] eq ac_simps)
    with True show ?thesis by auto
  qed
  then obtain ev2 fs1 wi1 where
    a8: "(if Ff > 0
          then features_loop eng n (sceneList simulation) (?fs0, 0)
          else pure_io (Inr (?fs0, 0))) = (ev2, Inr (fs1, wi1))"
    by (metis prod.exhaust)
  have a9: "make_array (Fi * S) im1 = Inr \<lparr>array_size = Fi * S, array_data = im1\<rparr>"
    "make_array (Ff * n * k) fs1 = Inr \<lparr>array_size = Ff * n * k, array_data = fs1\<rparr>"
    "make_array (Fi * n * S) ms1 = Inr \<lparr>array_size = Fi * n * S, array_data = ms1\<rparr>"
proof -
    have "0 \<le> Fi * S" "0 \<le> Fi * n * S"
      using Fi(3,5) by (simp_all add: ac_simps)
    then show "make_array (Fi * S) im1 = Inr \<lparr>array_size = Fi * S, array_data = im1\<rparr>"
      and "make_array (Fi * n * S) ms1 = Inr \<lparr>array_size = Fi * n * S, array_data = ms1\<rparr>"
      by (blast intro: make_array_nonneg)+
    show "make_array (Ff * n * k) fs1 = Inr \<lparr>array_size = Ff * n * k, array_data = fs1\<rparr>"
      using Ff(7) by (rule make_array_nonneg)
  qed
  show ?thesis
    unfolding pack_results_def
    using a1 a2 a3 a4 a5 a6 a6' a7 a8 a9 n
    by (simp add: bind_pure_Inr bind_io_Inr k_def [symmetric] pure_io_def)
qed


text \<open>A call of \<open>magic_ponies\<close> returns, for all three flags, when the task decodes, every
  frame of the simulation has the image size of the task and the number of valid bodies of
  frame 0, the engine writes as many bytes and features as the frame has room for, and the
  sizes of the three buffers fit an \<^verbatim>\<open>int\<close>.\<close>

lemma magic_ponies_returns:
  fixes eng :: "('g, 'f) engine" and user_input :: "'f UserInput" and keep :: bool
    and steps stride :: int
  assumes dec: "deserialize eng serialized_task = Inr task0"
  defines "task \<equiv> task0\<lparr>task_scene :=
                      addUserInputToScene eng user_input keep False (task_scene task0)\<rparr>"
  defines "simulation \<equiv> simulateTask eng task steps stride"
  defines "F \<equiv> int (length (sceneList simulation))"
  defines "S \<equiv> sint (width (task_scene task)) * sint (height (task_scene task))"
  defines "k \<equiv> kObjectFeatureSize eng"
  assumes n: "getNumObjects simulation = Inr n"
    and frames: "\<forall>scene\<in>set (sceneList simulation).
                   frame_like eng S n scene \<and> int (length (featurizeScene eng scene)) = k * n"
    and nonneg: "0 \<le> S" "0 \<le> k"
    and fits: "F * n * S \<le> INT_MAX" "F * S \<le> INT_MAX" "F * n \<le> INT_MAX" "F \<le> INT_MAX"
      "S \<le> INT_MAX" "n * S \<le> INT_MAX" "n * k \<le> INT_MAX" "F * n * k \<le> INT_MAX"
  shows "\<exists>ev r. magic_ponies eng serialized_task user_input keep steps stride
                   need_images need_featurized_objects need_object_masks = (ev, Inr r)"
proof -
  from pack_results_returns [OF n [unfolded simulation_def]
      frames [unfolded simulation_def S_def k_def]
      nonneg [unfolded S_def k_def] fits [unfolded F_def simulation_def S_def k_def]]
  obtain ev r where
    "pack_results eng task simulation need_images need_featurized_objects need_object_masks =
       (ev, Inr r)"
    unfolding simulation_def by blast
  with dec show ?thesis
    by (simp add: magic_ponies_def Let_def bind_io_Inr bind_pure_Inr emit_def
          task_def [symmetric] simulation_def [symmetric])
qed

end
